theory Spec2Isabelle
  imports Complex_Main
begin

section \<open>SentimentLab: the analysis service and the result store\<close>

text \<open>
  A shallow embedding of \<^verbatim>\<open>src/services/huggingfaceApi.ts\<close> (class
  \<^verbatim>\<open>HuggingFaceService\<close>) and \<^verbatim>\<open>src/hooks/useSentimentAnalysis.ts\<close>.
  JavaScript numbers are idealised as reals, except where a division can produce
  \<^verbatim>\<open>NaN\<close>, which is modelled explicitly. Strings are lists of 8-bit characters, read
  as the code points 0 to 255, and the string functions below are those of JavaScript on
  such text.
\<close>

subsection \<open>Strings\<close>

text \<open>\<^verbatim>\<open>String.prototype.startsWith\<close> and \<^verbatim>\<open>String.prototype.includes\<close>.\<close>

fun startsWith :: "string \<Rightarrow> string \<Rightarrow> bool" where
  "startsWith s [] = True"
| "startsWith [] (c # cs) = False"
| "startsWith (d # ds) (c # cs) = (d = c \<and> startsWith ds cs)"

fun includes_str :: "string \<Rightarrow> string \<Rightarrow> bool" where
  "includes_str [] sub = (sub = [])"
| "includes_str (d # ds) sub = (startsWith (d # ds) sub \<or> includes_str ds sub)"

text \<open>
  \<^verbatim>\<open>toLowerCase\<close>: the 26 ASCII capitals and the 30 capitals of the range 0xC0 to 0xDE
  (all of it but the multiplication sign 0xD7) are mapped to their small letters, every
  other character is kept.
\<close>

definition lower_char :: "char \<Rightarrow> char" where
  "lower_char c =
     (case map_of
             (zip (''ABCDEFGHIJKLMNOPQRSTUVWXYZ'' @
             [CHR 0xC0, CHR 0xC1, CHR 0xC2, CHR 0xC3, CHR 0xC4, CHR 0xC5, CHR 0xC6, CHR 0xC7,
              CHR 0xC8, CHR 0xC9, CHR 0xCA, CHR 0xCB, CHR 0xCC, CHR 0xCD, CHR 0xCE, CHR 0xCF,
              CHR 0xD0, CHR 0xD1, CHR 0xD2, CHR 0xD3, CHR 0xD4, CHR 0xD5, CHR 0xD6, CHR 0xD8,
              CHR 0xD9, CHR 0xDA, CHR 0xDB, CHR 0xDC, CHR 0xDD, CHR 0xDE])
                  (''abcdefghijklmnopqrstuvwxyz'' @
             [CHR 0xE0, CHR 0xE1, CHR 0xE2, CHR 0xE3, CHR 0xE4, CHR 0xE5, CHR 0xE6, CHR 0xE7,
              CHR 0xE8, CHR 0xE9, CHR 0xEA, CHR 0xEB, CHR 0xEC, CHR 0xED, CHR 0xEE, CHR 0xEF,
              CHR 0xF0, CHR 0xF1, CHR 0xF2, CHR 0xF3, CHR 0xF4, CHR 0xF5, CHR 0xF6, CHR 0xF8,
              CHR 0xF9, CHR 0xFA, CHR 0xFB, CHR 0xFC, CHR 0xFD, CHR 0xFE]))
             c of
        None \<Rightarrow> c
      | Some l \<Rightarrow> l)"

definition toLowerCase :: "string \<Rightarrow> string" where
  "toLowerCase s = map lower_char s"

text \<open>The regular expression class \<^verbatim>\<open>\w\<close>: letters, digits and the underscore.\<close>

definition word_char :: "char \<Rightarrow> bool" where
  "word_char c =
     (c \<in> set ''abcdefghijklmnopqrstuvwxyzABCDEFGHIJKLMNOPQRSTUVWXYZ0123456789_'')"

text \<open>
  \<^verbatim>\<open>s.match(/\b\w+\b/g) || []\<close>: the maximal runs of word characters, left to right.
  \<open>match_words cur s\<close> scans \<open>s\<close> with the run read so far in \<open>cur\<close> (reversed).
\<close>

fun match_words :: "string \<Rightarrow> string \<Rightarrow> string list" where
  "match_words cur [] = (if cur = [] then [] else [rev cur])"
| "match_words cur (c # cs) =
     (if word_char c then match_words (c # cur) cs
      else if cur = [] then match_words [] cs
      else rev cur # match_words [] cs)"

definition words_of :: "string \<Rightarrow> string list" where
  "words_of text_src = match_words [] (toLowerCase text_src)"

text \<open>
  \<^verbatim>\<open>String.prototype.trim\<close> removes white space and line terminators at both ends;
  \<^verbatim>\<open>if (text.trim())\<close> tests that something is left. Among the 8-bit characters
  these are the space, the tab, the line feed, the vertical tab, the form feed, the
  carriage return and the no-break space (0xA0); the others that \<^verbatim>\<open>trim\<close> removes
  lie beyond 8 bits.
\<close>

definition white_space :: "char \<Rightarrow> bool" where
  "white_space c =
     (c \<in> set [CHR '' '', CHR 0x09, CHR 0x0A, CHR 0x0B, CHR 0x0C, CHR 0x0D, CHR 0xA0])"

definition trim :: "string \<Rightarrow> string" where
  "trim s = rev (dropWhile white_space (rev (dropWhile white_space s)))"

subsection \<open>Sentiments and score distributions\<close>

datatype sentiment = Positive | Negative | Neutral

record scores =
  positive :: real
  negative :: real
  neutral :: real

text \<open>\<^verbatim>\<open>scores[key]\<close> and \<^verbatim>\<open>scores[key] = v\<close>.\<close>

fun score_of :: "scores \<Rightarrow> sentiment \<Rightarrow> real" where
  "score_of sc Positive = positive sc"
| "score_of sc Negative = negative sc"
| "score_of sc Neutral = neutral sc"

fun set_score :: "scores \<Rightarrow> sentiment \<Rightarrow> real \<Rightarrow> scores" where
  "set_score sc Positive v = sc\<lparr>positive := v\<rparr>"
| "set_score sc Negative v = sc\<lparr>negative := v\<rparr>"
| "set_score sc Neutral v = sc\<lparr>neutral := v\<rparr>"

record HuggingFaceResponse =
  label :: string
  score :: real

subsection \<open>mapSentimentLabel\<close>

definition mapSentimentLabel :: "string \<Rightarrow> sentiment" where
  "mapSentimentLabel lbl =
     (let normalizedLabel = toLowerCase lbl in
      if includes_str normalizedLabel ''positive'' \<or> normalizedLabel = ''label_2''
         \<or> normalizedLabel = ''pos'' \<or> includes_str normalizedLabel ''5 stars''
         \<or> includes_str normalizedLabel ''4 stars''
      then Positive
      else if includes_str normalizedLabel ''negative'' \<or> normalizedLabel = ''label_0''
         \<or> normalizedLabel = ''neg'' \<or> includes_str normalizedLabel ''1 star''
         \<or> includes_str normalizedLabel ''2 stars''
      then Negative
      else Neutral)"

subsection \<open>analyzeSentiment: from the API's result list to the verdict\<close>

text \<open>
  The body of the \<^verbatim>\<open>results.forEach\<close> callback: the bucket of the mapped label is
  assigned the clamped score, and \<^verbatim>\<open>totalScore\<close> grows by the value just stored.
\<close>

definition clamp01 :: "real \<Rightarrow> real" where
  "clamp01 x = max 0 (min 1 x)"

definition score_step :: "scores \<times> real \<Rightarrow> HuggingFaceResponse \<Rightarrow> scores \<times> real" where
  "score_step acc result =
     (case acc of (sc, totalScore) \<Rightarrow>
        let mappedSentiment = mapSentimentLabel (label result);
            sc' = set_score sc mappedSentiment (clamp01 (score result))
        in (sc', totalScore + score_of sc' mappedSentiment))"

definition zero_scores :: scores where
  "zero_scores = \<lparr>positive = 0, negative = 0, neutral = 0\<rparr>"

definition collect_scores :: "HuggingFaceResponse list \<Rightarrow> scores \<times> real" where
  "collect_scores results = foldl score_step (zero_scores, 0) results"

text \<open>
  \<^verbatim>\<open>if (totalScore > 0 && Math.abs(totalScore - 1) > 0.01)\<close>: divide every bucket.
  The test is made on real numbers. Double arithmetic rounds the sum and the difference, so
  for a total within a rounding error of 0.99 or 1.01 the code may take the other branch
  (in doubles \<^verbatim>\<open>(0.5 + 0.51) - 1 > 0.01\<close> holds); the model says nothing about
  the code at such totals.
\<close>

definition rescale :: "scores \<times> real \<Rightarrow> scores" where
  "rescale acc =
     (case acc of (sc, totalScore) \<Rightarrow>
        if totalScore > 0 \<and> \<bar>totalScore - 1\<bar> > 0.01
        then \<lparr>positive = positive sc / totalScore,
              negative = negative sc / totalScore,
              neutral = neutral sc / totalScore\<rparr>
        else sc)"

definition normalize_scores :: "HuggingFaceResponse list \<Rightarrow> scores" where
  "normalize_scores results = rescale (collect_scores results)"

text \<open>
  \<^verbatim>\<open>Object.entries(scores).reduce((a, b) => scores[a[0]] > scores[b[0]] ? a : b)[0]\<close>.
  The entries come in the order of the object literal: positive, negative, neutral.
  \<^verbatim>\<open>reduce\<close> without an initial value starts from the first element and raises a
  \<^verbatim>\<open>TypeError\<close> on an empty array (\<open>None\<close>).
\<close>

definition entries :: "scores \<Rightarrow> (sentiment \<times> real) list" where
  "entries sc = [(Positive, positive sc), (Negative, negative sc), (Neutral, neutral sc)]"

fun reduce_js :: "('a \<Rightarrow> 'a \<Rightarrow> 'a) \<Rightarrow> 'a list \<Rightarrow> 'a option" where
  "reduce_js f [] = None"
| "reduce_js f (x # xs) = Some (foldl f x xs)"

definition higher :: "scores \<Rightarrow> sentiment \<times> real \<Rightarrow> sentiment \<times> real \<Rightarrow> sentiment \<times> real" where
  "higher sc a b = (if score_of sc (fst a) > score_of sc (fst b) then a else b)"

definition pick_verdict :: "scores \<Rightarrow> sentiment option" where
  "pick_verdict sc = map_option fst (reduce_js (higher sc) (entries sc))"

text \<open>What the claims say of the aggregation, in the specification's words.\<close>

definition bucket_sum_spec :: "HuggingFaceResponse list \<Rightarrow> sentiment \<Rightarrow> real" where
  "bucket_sum_spec results b =
     clamp01 (sum_list (map score (filter (\<lambda>r. mapSentimentLabel (label r) = b) results)))"

definition clamped_total :: "HuggingFaceResponse list \<Rightarrow> real" where
  "clamped_total results = sum_list (map (\<lambda>r. clamp01 (score r)) results)"

definition scores_sum :: "scores \<Rightarrow> real" where
  "scores_sum sc = positive sc + negative sc + neutral sc"

definition first_maximum_spec :: "scores \<Rightarrow> sentiment" where
  "first_maximum_spec sc =
     (if positive sc \<ge> negative sc \<and> positive sc \<ge> neutral sc then Positive
      else if negative sc \<ge> neutral sc then Negative
      else Neutral)"

text \<open>The position of a sentiment in the enumeration order of \<open>entries\<close>.\<close>

fun rank :: "sentiment \<Rightarrow> nat" where
  "rank Positive = 0"
| "rank Negative = 1"
| "rank Neutral = 2"

subsection \<open>extractKeywords\<close>

record keyword =
  word :: string
  kw_sentiment :: sentiment
  weight :: real

definition positiveWords :: "string list" where
  "positiveWords =
     [''good'', ''great'', ''excellent'', ''amazing'', ''wonderful'', ''fantastic'', ''love'',
      ''best'', ''perfect'', ''awesome'', ''outstanding'', ''brilliant'', ''superb'',
      ''magnificent'', ''incredible'', ''marvelous'', ''exceptional'', ''delightful'',
      ''impressive'', ''remarkable'', ''beautiful'', ''lovely'', ''nice'', ''pleasant'',
      ''enjoyable'', ''satisfying'']"

definition negativeWords :: "string list" where
  "negativeWords =
     [''bad'', ''terrible'', ''awful'', ''horrible'', ''hate'', ''worst'', ''disappointing'',
      ''poor'', ''useless'', ''disgusting'', ''dreadful'', ''appalling'', ''atrocious'',
      ''abysmal'', ''pathetic'', ''miserable'', ''unpleasant'', ''annoying'',
      ''frustrating'', ''irritating'', ''boring'', ''stupid'', ''ridiculous'', ''waste'',
      ''failure'', ''broken'']"

text \<open>The \<^verbatim>\<open>words.forEach\<close> loop that pushes one entry for every lexicon hit.\<close>

fun collect_keywords :: "string list \<Rightarrow> keyword list" where
  "collect_keywords [] = []"
| "collect_keywords (w # ws) =
     (if w \<in> set positiveWords
      then \<lparr>word = w, kw_sentiment = Positive, weight = 0.8\<rparr> # collect_keywords ws
      else if w \<in> set negativeWords
      then \<lparr>word = w, kw_sentiment = Negative, weight = 0.8\<rparr> # collect_keywords ws
      else collect_keywords ws)"

text \<open>\<^verbatim>\<open>Array.prototype.findIndex\<close>: the first index that satisfies \<open>p\<close>, or \<open>-1\<close>.\<close>

fun findIndex :: "('a \<Rightarrow> bool) \<Rightarrow> 'a list \<Rightarrow> int" where
  "findIndex p [] = - 1"
| "findIndex p (x # xs) =
     (if p x then 0 else (let i = findIndex p xs in if i < 0 then - 1 else i + 1))"

text \<open>\<^verbatim>\<open>Array.prototype.filter\<close> with the callback \<^verbatim>\<open>(element, index, self)\<close>.\<close>

definition filter_indexed :: "('a \<Rightarrow> nat \<Rightarrow> 'a list \<Rightarrow> bool) \<Rightarrow> 'a list \<Rightarrow> 'a list" where
  "filter_indexed p xs = map fst (filter (\<lambda>(x, i). p x i xs) (zip xs [0..<length xs]))"

definition uniqueKeywords :: "keyword list \<Rightarrow> keyword list" where
  "uniqueKeywords keywords =
     filter_indexed
       (\<lambda>keyword index self. int index = findIndex (\<lambda>k. word k = word keyword) self)
       keywords"

text \<open>The second argument is the verdict, which the body never reads.\<close>

definition extractKeywords :: "string \<Rightarrow> sentiment \<Rightarrow> keyword list" where
  "extractKeywords text_src verdict =
     take 5 (uniqueKeywords (collect_keywords (words_of text_src)))"

subsection \<open>generateExplanation\<close>

text \<open>
  \<^verbatim>\<open>toFixed1\<close> stands for \<^verbatim>\<open>Number.prototype.toFixed(1)\<close>, the decimal rendering of a
  number, which the model takes as a parameter.
\<close>

fun sentiment_name :: "sentiment \<Rightarrow> string" where
  "sentiment_name Positive = ''positive''"
| "sentiment_name Negative = ''negative''"
| "sentiment_name Neutral = ''neutral''"

fun join :: "string \<Rightarrow> string list \<Rightarrow> string" where
  "join sep [] = []"
| "join sep [x] = x"
| "join sep (x # y # ys) = x @ sep @ join sep (y # ys)"

definition generateExplanation ::
  "(real \<Rightarrow> string) \<Rightarrow> sentiment \<Rightarrow> real \<Rightarrow> keyword list \<Rightarrow> string" where
  "generateExplanation toFixed1 verdict conf kws =
     (let confidenceLevel =
            (if conf > 0.8 then ''high'' else if conf > 0.6 then ''moderate'' else ''low'');
          keywordText =
            (if length kws > 0
             then '' Key indicators include words like: '' @ join '', '' (map word kws) @ ''.''
             else [])
      in ''This text shows '' @ sentiment_name verdict @ '' sentiment with '' @ confidenceLevel
         @ '' confidence ('' @ toFixed1 (conf * 100) @ ''%).'' @ keywordText)"

subsection \<open>analyzeSentimentDemo\<close>

text \<open>What both analysis paths resolve with.\<close>

record analysis =
  sentiment :: sentiment
  confidence :: real
  scores :: scores
  key_words :: "keyword list"
  explanation :: string

text \<open>The word lists local to \<^verbatim>\<open>analyzeSentimentDemo\<close>: 18 entries each.\<close>

definition demo_positiveWords :: "string list" where
  "demo_positiveWords =
     [''good'', ''great'', ''excellent'', ''amazing'', ''wonderful'', ''fantastic'', ''love'',
      ''best'', ''perfect'', ''awesome'', ''outstanding'', ''brilliant'', ''superb'',
      ''magnificent'', ''incredible'', ''marvelous'', ''exceptional'', ''delightful'']"

definition demo_negativeWords :: "string list" where
  "demo_negativeWords =
     [''bad'', ''terrible'', ''awful'', ''horrible'', ''hate'', ''worst'', ''disappointing'',
      ''poor'', ''useless'', ''disgusting'', ''dreadful'', ''appalling'', ''atrocious'',
      ''abysmal'', ''pathetic'', ''miserable'', ''unpleasant'', ''annoying'']"

text \<open>
  The counting loop, parameterised by the two word lists: both tests are made for every
  word, and every occurrence counts.
\<close>

definition count_step :: "string list \<Rightarrow> string list \<Rightarrow> nat \<times> nat \<Rightarrow> string \<Rightarrow> nat \<times> nat" where
  "count_step pos neg acc w =
     (case acc of (positiveScore, negativeScore) \<Rightarrow>
        (if w \<in> set pos then positiveScore + 1 else positiveScore,
         if w \<in> set neg then negativeScore + 1 else negativeScore))"

definition count_hits :: "string list \<Rightarrow> string list \<Rightarrow> string list \<Rightarrow> nat \<times> nat" where
  "count_hits pos neg ws = foldl (count_step pos neg) (0, 0) ws"

text \<open>
  The values of the calls of \<^verbatim>\<open>Math.random()\<close>, one field for each call site (a call
  site that is not reached leaves its field unread). The first one only sets the delay.
\<close>

record demo_random =
  delay_draw :: real
  confidence_draw :: real
  positive_draw :: real
  negative_draw :: real
  neutral_draw :: real

definition analyzeSentimentDemo :: "(real \<Rightarrow> string) \<Rightarrow> demo_random \<Rightarrow> string \<Rightarrow> analysis" where
  "analyzeSentimentDemo toFixed1 rnd text_src =
     (case count_hits demo_positiveWords demo_negativeWords (words_of text_src) of
        (positiveScore, negativeScore) \<Rightarrow>
        let (verdict, conf) =
              (if positiveScore > negativeScore
               then (Positive, min (0.65 + real positiveScore * 0.08) 0.92)
               else if negativeScore > positiveScore
               then (Negative, min (0.65 + real negativeScore * 0.08) 0.92)
               else (Neutral, 0.55 + confidence_draw rnd * 0.25));
            remaining = 1 - conf;
            sc = \<lparr>positive = (if verdict = Positive then conf
                               else positive_draw rnd * remaining * 0.6),
                  negative = (if verdict = Negative then conf
                               else negative_draw rnd * remaining * 0.6),
                  neutral = (if verdict = Neutral then conf
                              else neutral_draw rnd * remaining * 0.6)\<rparr>;
            total = positive sc + negative sc + neutral sc;
            kws = extractKeywords text_src verdict
        in \<lparr>sentiment = verdict,
            confidence = conf,
            scores = \<lparr>positive = positive sc / total, negative = negative sc / total,
                       neutral = neutral sc / total\<rparr>,
            key_words = kws,
            explanation = generateExplanation toFixed1 verdict conf kws\<rparr>)"

subsection \<open>makeApiCall\<close>

text \<open>
  What a JavaScript \<^verbatim>\<open>throw\<close> raises here: an \<^verbatim>\<open>Error\<close> with its message, a
  \<^verbatim>\<open>TypeError\<close> with its message (also an instance of \<^verbatim>\<open>Error\<close>), or a value that
  is no \<^verbatim>\<open>Error\<close> at all.
\<close>

datatype thrown = Error string | TypeError string | NonError

datatype json = JNull | JBool bool | JNum real | JStr string | JArr "json list"
  | JObj "(string \<times> json) list"

text \<open>Reading a property of a parsed value: of \<^verbatim>\<open>null\<close> it throws, of an object
  without the property and of every other value it is \<^verbatim>\<open>undefined\<close>.\<close>

datatype lookup = Throws | Undefined | Value json

fun property :: "json \<Rightarrow> string \<Rightarrow> lookup" where
  "property JNull k = Throws"
| "property (JObj members) k = (case map_of members k of None \<Rightarrow> Undefined | Some v \<Rightarrow> Value v)"
| "property v k = Undefined"

fun truthy :: "json \<Rightarrow> bool" where
  "truthy JNull = False"
| "truthy (JBool b) = b"
| "truthy (JNum x) = (x \<noteq> 0)"
| "truthy (JStr s) = (s \<noteq> [])"
| "truthy v = True"

record request =
  url :: string
  authorization :: string
  inputs :: string

record response =
  status :: nat
  statusText :: string
  responseText :: string

text \<open>\<^verbatim>\<open>await fetch(...)\<close> followed by \<^verbatim>\<open>await response.text()\<close> either rejects or gives
  a response with its body.\<close>

datatype fetch_outcome = Rejects thrown | Responds response

text \<open>
  The platform around the call: the network, \<^verbatim>\<open>JSON.parse\<close> (\<open>None\<close> when it throws),
  the conversion of a non-string value to a string, and the message of the
  \<^verbatim>\<open>TypeError\<close> that reading a property of \<^verbatim>\<open>null\<close> raises.
\<close>

record api_env =
  fetch :: "request \<Rightarrow> fetch_outcome"
  JSON_parse :: "string \<Rightarrow> json option"
  to_string :: "json \<Rightarrow> string"
  null_read_message :: string

definition js_string :: "api_env \<Rightarrow> json \<Rightarrow> string" where
  "js_string env v = (case v of JStr s \<Rightarrow> s | _ \<Rightarrow> to_string env v)"

definition HUGGINGFACE_API_URL :: string where
  "HUGGINGFACE_API_URL =
     ''https://api-inference.huggingface.co/models/cardiffnlp/twitter-roberta-base-sentiment-latest''"

definition FALLBACK_API_URL :: string where
  "FALLBACK_API_URL =
     ''https://api-inference.huggingface.co/models/nlptown/bert-base-multilingual-uncased-sentiment''"

definition key_not_set :: string where
  "key_not_set = ''Hugging Face API key not set. Please add your API key in the settings.''"

definition key_format :: string where
  "key_format =
     ''Invalid API key format. Hugging Face API keys should start with '' @ [CHR 0x22]
     @ ''hf_'' @ [CHR 0x22] @ ''.''"

definition model_not_found :: string where
  "model_not_found =
     ''Model not found. The sentiment analysis model may be temporarily unavailable. Please try again later.''"

definition invalid_api_key :: string where
  "invalid_api_key = ''Invalid API key. Please check your Hugging Face API key in Settings.''"

definition access_forbidden :: string where
  "access_forbidden =
     ''Access forbidden. Please check your API key permissions or try a different model.''"

definition rate_limit :: string where
  "rate_limit = ''Rate limit exceeded. Please wait a moment before making more requests.''"

definition model_loading :: string where
  "model_loading = ''Model is currently loading. Please try again in a few moments.''"

definition invalid_response_format :: string where
  "invalid_response_format = ''Invalid response format from API. Please try again.''"

definition unexpected_format :: string where
  "unexpected_format = ''Unexpected API response format. Please try again.''"

definition network_error :: string where
  "network_error = ''Network error. Please check your internet connection and try again.''"

definition ok :: "response \<Rightarrow> bool" where
  "ok r = (200 \<le> status r \<and> status r \<le> 299)"

text \<open>The \<^verbatim>\<open>errorMessage\<close> built from the body of a failed response.\<close>

definition error_message :: "api_env \<Rightarrow> response \<Rightarrow> string" where
  "error_message env r =
     (let errorMessage = ''API request failed ('' @ js_string env (JNum (real (status r)))
                          @ ''): '' @ statusText r
      in case JSON_parse env (responseText r) of
           None \<Rightarrow> errorMessage
         | Some errorData \<Rightarrow>
             (case property errorData ''error'' of
                Value e \<Rightarrow>
                  if truthy e
                  then (case property errorData ''estimated_time'' of
                          Value t \<Rightarrow>
                            if truthy t
                            then js_string env e @ '' Model is loading, estimated time: ''
                                 @ js_string env t @ ''s. Please try again in a moment.''
                            else js_string env e
                        | _ \<Rightarrow> js_string env e)
                  else errorMessage
              | _ \<Rightarrow> errorMessage))"

text \<open>The chain of status tests after the 404 case.\<close>

definition status_error :: "api_env \<Rightarrow> response \<Rightarrow> thrown" where
  "status_error env r =
     (if status r = 401 then Error invalid_api_key
      else if status r = 403 then Error access_forbidden
      else if status r = 429 then Error rate_limit
      else if status r = 503 then Error model_loading
      else Error (error_message env r))"

text \<open>The body of a successful response: the nested or the flat array of results.\<close>

definition read_data :: "api_env \<Rightarrow> string \<Rightarrow> thrown + json" where
  "read_data env body =
     (case JSON_parse env body of
        None \<Rightarrow> Inl (Error invalid_response_format)
      | Some dat \<Rightarrow>
          (case dat of
             JArr (d0 # ds) \<Rightarrow>
               (case d0 of
                  JArr inner \<Rightarrow> Inr d0
                | _ \<Rightarrow>
                    (case property d0 ''label'' of
                       Throws \<Rightarrow> Inl (TypeError (null_read_message env))
                     | Undefined \<Rightarrow> Inl (Error unexpected_format)
                     | Value l \<Rightarrow>
                         if truthy l \<and> property d0 ''score'' \<noteq> Undefined then Inr dat
                         else Inl (Error unexpected_format)))
           | _ \<Rightarrow> Inl (Error unexpected_format)))"

text \<open>The \<^verbatim>\<open>catch\<close> block around the request.\<close>

definition catch_network :: "thrown + json \<Rightarrow> thrown + json" where
  "catch_network r =
     (case r of
        Inl (TypeError m) \<Rightarrow>
          if includes_str m ''fetch'' then Inl (Error network_error) else Inl (TypeError m)
      | _ \<Rightarrow> r)"

text \<open>The request sent to an address: the key as bearer token and the first 500
  characters of the text as \<^verbatim>\<open>inputs\<close>.\<close>

definition api_request :: "string \<Rightarrow> string \<Rightarrow> string \<Rightarrow> request" where
  "api_request apiUrl k text_src =
     \<lparr>url = apiUrl, authorization = ''Bearer '' @ k, inputs = take 500 text_src\<rparr>"

text \<open>
  \<open>makeApiCall env apiKey text useFailover\<close> returns what the promise settles with and the
  requests sent, in order. The promise of the recursive call is returned without
  \<^verbatim>\<open>await\<close>, so its outcome is the caller's and does not pass the caller's
  \<^verbatim>\<open>catch\<close>. The field \<^verbatim>\<open>currentApiUrl\<close> is never assigned after its initialisation
  with the primary address.
\<close>

function makeApiCall ::
  "api_env \<Rightarrow> string option \<Rightarrow> string \<Rightarrow> bool \<Rightarrow> (thrown + json) \<times> request list" where
  "makeApiCall env apiKey text_src useFailover =
     (case apiKey of
        None \<Rightarrow> (Inl (Error key_not_set), [])
      | Some k \<Rightarrow>
          if length k = 0 then (Inl (Error key_not_set), [])
          else if \<not> startsWith k ''hf_'' then (Inl (Error key_format), [])
          else
            let apiUrl = (if useFailover then FALLBACK_API_URL else HUGGINGFACE_API_URL);
                req = api_request apiUrl k text_src
            in (case fetch env req of
                  Rejects e \<Rightarrow> (catch_network (Inl e), [req])
                | Responds r \<Rightarrow>
                    if \<not> ok r then
                      if status r = 404 then
                        if \<not> useFailover
                        then (case makeApiCall env apiKey text_src True of
                                (outcome, reqs) \<Rightarrow> (outcome, req # reqs))
                        else (catch_network (Inl (Error model_not_found)), [req])
                      else (catch_network (Inl (status_error env r)), [req])
                    else (catch_network (read_data env (responseText r)), [req])))"
  by pat_completeness auto
termination
  by (relation "measure (\<lambda>(env, apiKey, text_src, useFailover). if useFailover then 0 else 1)")
    auto

declare makeApiCall.simps [simp del]

text \<open>A network whose primary address answers 404 and whose fallback address answers 429.\<close>

definition failover_env :: api_env where
  "failover_env =
     \<lparr>fetch = (\<lambda>req. if url req = FALLBACK_API_URL
                         then Responds \<lparr>status = 429, statusText = ''Too Many Requests'',
                                         responseText = []\<rparr>
                         else Responds \<lparr>status = 404, statusText = ''Not Found'',
                                         responseText = []\<rparr>),
      JSON_parse = (\<lambda>body. None),
      to_string = (\<lambda>v. []),
      null_read_message = []\<rparr>"

subsection \<open>The data of useSentimentAnalysis\<close>

text \<open>
  \<^verbatim>\<open>SentimentResult\<close> has the fields of an analysis and \<^verbatim>\<open>id\<close>, \<^verbatim>\<open>text\<close> and
  \<^verbatim>\<open>timestamp\<close> (here \<open>result_id\<close>, \<open>result_text\<close>, \<open>timestamp\<close>); a \<^verbatim>\<open>Date\<close> is
  a number of milliseconds.
\<close>

record SentimentResult = analysis +
  result_id :: string
  result_text :: string
  timestamp :: nat

text \<open>
  A quotient of JavaScript numbers: a division by zero gives \<^verbatim>\<open>NaN\<close> or an infinity.
\<close>

datatype js_number = Finite real | NaN | PosInfinity | NegInfinity

definition js_divide :: "real \<Rightarrow> real \<Rightarrow> js_number" where
  "js_divide a b =
     (if b \<noteq> 0 then Finite (a / b)
      else if a = 0 then NaN
      else if a > 0 then PosInfinity
      else NegInfinity)"

text \<open>
  The summary and the batch, with the type of \<^verbatim>\<open>averageConfidence\<close> as a parameter:
  a JavaScript number in the hook's state, and what JSON keeps of it in the store.
  \<^verbatim>\<open>BatchResult\<close> has the fields \<^verbatim>\<open>id\<close>, \<^verbatim>\<open>name\<close>, \<^verbatim>\<open>results\<close>,
  \<^verbatim>\<open>summary\<close>, \<^verbatim>\<open>createdAt\<close>.
\<close>

record 'n summary =
  totalTexts :: nat
  positiveCount :: nat
  negativeCount :: nat
  neutralCount :: nat
  averageConfidence :: 'n

record 'n batch_record =
  batch_id :: string
  batch_name :: string
  batch_results :: "SentimentResult list"
  batch_summary :: "'n summary"
  createdAt :: nat

type_synonym BatchResult = "js_number batch_record"

text \<open>
  \<^verbatim>\<open>JSON.stringify\<close> writes a finite number as it is and \<^verbatim>\<open>NaN\<close> and the
  infinities as \<^verbatim>\<open>null\<close> (\<open>None\<close>). A stored batch is a batch as its JSON text
  holds it.
\<close>

fun json_number :: "js_number \<Rightarrow> real option" where
  "json_number (Finite x) = Some x"
| "json_number NaN = None"
| "json_number PosInfinity = None"
| "json_number NegInfinity = None"

type_synonym stored_batch = "real option batch_record"

definition stringify_batch :: "BatchResult \<Rightarrow> stored_batch" where
  "stringify_batch b =
     \<lparr>batch_id = batch_id b,
      batch_name = batch_name b,
      batch_results = batch_results b,
      batch_summary =
        \<lparr>totalTexts = totalTexts (batch_summary b),
         positiveCount = positiveCount (batch_summary b),
         negativeCount = negativeCount (batch_summary b),
         neutralCount = neutralCount (batch_summary b),
         averageConfidence = json_number (averageConfidence (batch_summary b))\<rparr>,
      createdAt = createdAt b\<rparr>"

record AnalysisState =
  isLoading :: bool
  progress :: real
  error :: "string option"
  results :: "SentimentResult list"
  batches :: "BatchResult list"

text \<open>
  The hook's state together with the two items of \<^verbatim>\<open>localStorage\<close> it writes
  (\<open>None\<close>: the item is absent). An item holds the collection that its JSON text
  encodes: the results as they are (their numbers are finite), the batches as stored
  batches.
\<close>

record world =
  state :: AnalysisState
  sentimentResults :: "SentimentResult list option"
  sentimentBatches :: "stored_batch list option"

definition empty_world :: world where
  "empty_world =
     \<lparr>state = \<lparr>isLoading = False, progress = 0, error = None, results = [], batches = []\<rparr>,
      sentimentResults = None, sentimentBatches = None\<rparr>"

text \<open>
  What the hook gets from outside during one call: the outcome of the analysis service for
  the \<open>i\<close>-th text of the call (\<open>Inl\<close> what it throws), the identifier built from
  \<^verbatim>\<open>Date.now()\<close> and \<^verbatim>\<open>Math.random()\<close> and the time of the \<open>i\<close>-th result, and the
  identifier and the time of the batch.
\<close>

record hook_env =
  analyse :: "bool \<Rightarrow> nat \<Rightarrow> string \<Rightarrow> thrown + analysis"
  new_result_id :: "nat \<Rightarrow> string"
  result_time :: "nat \<Rightarrow> nat"
  new_batch_id :: string
  batch_time :: nat

subsection \<open>The operations of useSentimentAnalysis\<close>

definition setState :: "(AnalysisState \<Rightarrow> AnalysisState) \<Rightarrow> world \<Rightarrow> world" where
  "setState f w = w\<lparr>state := f (state w)\<rparr>"

definition saveToLocalStorage ::
  "SentimentResult list \<Rightarrow> BatchResult list \<Rightarrow> world \<Rightarrow> world" where
  "saveToLocalStorage rs bs w =
     w\<lparr>sentimentResults := Some rs, sentimentBatches := Some (map stringify_batch bs)\<rparr>"

text \<open>\<^verbatim>\<open>error instanceof Error ? error.message : fallback\<close>.\<close>

fun error_text :: "string \<Rightarrow> thrown \<Rightarrow> string" where
  "error_text fallback (Error m) = m"
| "error_text fallback (TypeError m) = m"
| "error_text fallback NonError = fallback"

definition make_result :: "hook_env \<Rightarrow> nat \<Rightarrow> string \<Rightarrow> analysis \<Rightarrow> SentimentResult" where
  "make_result env i txt a =
     \<lparr>sentiment = sentiment a, confidence = confidence a, scores = scores a,
      key_words = key_words a, explanation = explanation a,
      result_id = new_result_id env i, result_text = txt, timestamp = result_time env i\<rparr>"

definition analyzeSingleText ::
  "hook_env \<Rightarrow> string \<Rightarrow> bool \<Rightarrow> world \<Rightarrow> (thrown + SentimentResult) \<times> world" where
  "analyzeSingleText env txt useDemo w =
     (let w1 = setState (\<lambda>prev. prev\<lparr>isLoading := True, error := None, progress := 0\<rparr>) w
      in case analyse env useDemo 0 txt of
           Inr a \<Rightarrow>
             let result = make_result env 0 txt a;
                 prev = state w1;
                 newResults = result # results prev;
                 w2 = saveToLocalStorage newResults (batches prev) w1
             in (Inr result,
                 w2\<lparr>state := prev\<lparr>results := newResults, isLoading := False,
                                   progress := 100\<rparr>\<rparr>)
         | Inl e \<Rightarrow>
             (Inl e,
              setState (\<lambda>prev. prev\<lparr>isLoading := False,
                                     error := Some (error_text ''Analysis failed'' e)\<rparr>) w1))"

text \<open>
  The \<^verbatim>\<open>for\<close> loop of \<^verbatim>\<open>analyzeBatch\<close> from index \<open>i\<close> on, over the texts that are
  left, with the results pushed so far. An analysis that throws ends the loop.
\<close>

fun batch_loop ::
  "hook_env \<Rightarrow> bool \<Rightarrow> nat \<Rightarrow> nat \<Rightarrow> string list \<Rightarrow> SentimentResult list \<Rightarrow> world
   \<Rightarrow> (thrown + SentimentResult list) \<times> world" where
  "batch_loop env useDemo total_n i [] rs w = (Inr rs, w)"
| "batch_loop env useDemo total_n i (txt # rest) rs w =
     (if trim txt \<noteq> []
      then (case analyse env useDemo i txt of
              Inl e \<Rightarrow> (Inl e, w)
            | Inr a \<Rightarrow>
                batch_loop env useDemo total_n (i + 1) rest (rs @ [make_result env i txt a])
                  (setState (\<lambda>prev. prev\<lparr>progress := (real (i + 1) / real total_n) * 100\<rparr>) w))
      else batch_loop env useDemo total_n (i + 1) rest rs
             (setState (\<lambda>prev. prev\<lparr>progress := (real (i + 1) / real total_n) * 100\<rparr>) w))"

definition make_batch :: "hook_env \<Rightarrow> string \<Rightarrow> SentimentResult list \<Rightarrow> BatchResult" where
  "make_batch env batchName rs =
     \<lparr>batch_id = new_batch_id env,
      batch_name = batchName,
      batch_results = rs,
      batch_summary =
        \<lparr>totalTexts = length rs,
         positiveCount = length (filter (\<lambda>r. sentiment r = Positive) rs),
         negativeCount = length (filter (\<lambda>r. sentiment r = Negative) rs),
         neutralCount = length (filter (\<lambda>r. sentiment r = Neutral) rs),
         averageConfidence =
           js_divide (foldl (\<lambda>sum r. sum + confidence r) 0 rs) (real (length rs))\<rparr>,
      createdAt = batch_time env\<rparr>"

definition analyzeBatch ::
  "hook_env \<Rightarrow> string list \<Rightarrow> string \<Rightarrow> bool \<Rightarrow> world \<Rightarrow> (thrown + BatchResult) \<times> world" where
  "analyzeBatch env texts batchName useDemo w =
     (let w1 = setState (\<lambda>prev. prev\<lparr>isLoading := True, error := None, progress := 0\<rparr>) w
      in case batch_loop env useDemo (length texts) 0 texts [] w1 of
           (Inr rs, w2) \<Rightarrow>
             let batch = make_batch env batchName rs;
                 prev = state w2;
                 newResults = rs @ results prev;
                 newBatches = batch # batches prev;
                 w3 = saveToLocalStorage newResults newBatches w2
             in (Inr batch,
                 w3\<lparr>state := prev\<lparr>results := newResults, batches := newBatches,
                                   isLoading := False\<rparr>\<rparr>)
         | (Inl e, w2) \<Rightarrow>
             (Inl e,
              setState (\<lambda>prev. prev\<lparr>isLoading := False,
                                     error := Some (error_text ''Batch analysis failed'' e)\<rparr>)
                w2))"

definition clearResults :: "world \<Rightarrow> world" where
  "clearResults w =
     (setState (\<lambda>prev. prev\<lparr>results := [], batches := []\<rparr>) w)
       \<lparr>sentimentResults := None, sentimentBatches := None\<rparr>"

definition deleteResult :: "string \<Rightarrow> world \<Rightarrow> world" where
  "deleteResult i w =
     (let prev = state w;
          newResults = filter (\<lambda>r. result_id r \<noteq> i) (results prev);
          w1 = saveToLocalStorage newResults (batches prev) w
      in w1\<lparr>state := prev\<lparr>results := newResults\<rparr>\<rparr>)"

definition deleteBatch :: "string \<Rightarrow> world \<Rightarrow> world" where
  "deleteBatch i w =
     (let prev = state w;
          batch = find (\<lambda>b. batch_id b = i) (batches prev);
          newBatches = filter (\<lambda>b. batch_id b \<noteq> i) (batches prev);
          newResults =
            (case batch of
               Some b \<Rightarrow>
                 filter (\<lambda>r. \<not> list_ex (\<lambda>br. result_id br = result_id r) (batch_results b))
                   (results prev)
             | None \<Rightarrow> results prev);
          w1 = saveToLocalStorage newResults newBatches w
      in w1\<lparr>state := prev\<lparr>results := newResults, batches := newBatches\<rparr>\<rparr>)"

subsection \<open>Sequences of operations and the membership invariant\<close>

datatype operation =
    AnalyzeSingleText hook_env string bool
  | AnalyzeBatch hook_env "string list" string bool
  | DeleteResult string
  | DeleteBatch string
  | ClearResults

fun apply_operation :: "operation \<Rightarrow> world \<Rightarrow> world" where
  "apply_operation (AnalyzeSingleText env txt useDemo) w = snd (analyzeSingleText env txt useDemo w)"
| "apply_operation (AnalyzeBatch env texts batchName useDemo) w =
     snd (analyzeBatch env texts batchName useDemo w)"
| "apply_operation (DeleteResult i) w = deleteResult i w"
| "apply_operation (DeleteBatch i) w = deleteBatch i w"
| "apply_operation ClearResults w = clearResults w"

definition run :: "operation list \<Rightarrow> world \<Rightarrow> world" where
  "run ops w = foldl (\<lambda>v p. apply_operation p v) w ops"

text \<open>Every result that a batch lists is in the result collection, by its identifier.\<close>

definition members_present :: "world \<Rightarrow> bool" where
  "members_present w =
     list_all
       (\<lambda>b. list_all (\<lambda>r. result_id r \<in> set (map result_id (results (state w))))
              (batch_results b))
       (batches (state w))"

text \<open>
  The identifiers that a batch call gives its results: those of the indices of the texts
  that are not blank.
\<close>

definition generated_ids :: "hook_env \<Rightarrow> string list \<Rightarrow> string list" where
  "generated_ids env texts =
     map (new_result_id env) (filter (\<lambda>i. trim (texts ! i) \<noteq> []) [0..<length texts])"

definition member_ids :: "world \<Rightarrow> string list" where
  "member_ids w = concat (map (\<lambda>b. map result_id (batch_results b)) (batches (state w)))"

text \<open>
  A sequence of operations without \<open>DeleteResult\<close> in which every batch call generates
  identifiers that no stored batch lists.
\<close>

fun admissible :: "operation list \<Rightarrow> world \<Rightarrow> bool" where
  "admissible [] w = True"
| "admissible (DeleteResult i # ops) w = False"
| "admissible (AnalyzeBatch env texts batchName useDemo # ops) w =
     (set (generated_ids env texts) \<inter> set (member_ids w) = {}
      \<and> admissible ops (apply_operation (AnalyzeBatch env texts batchName useDemo) w))"
| "admissible (p # ops) w = admissible ops (apply_operation p w)"

subsection \<open>Notions used in the properties\<close>

text \<open>Membership in one of the two lexicons of \<open>extractKeywords\<close>.\<close>

definition in_lexicon :: "string \<Rightarrow> bool" where
  "in_lexicon w = (w \<in> set positiveWords \<or> w \<in> set negativeWords)"

text \<open>
  The elements of a list that do not occur at an earlier position, in the order of the
  list: of equal elements the first occurrence is kept.
\<close>

definition first_occurrences :: "'a list \<Rightarrow> 'a list" where
  "first_occurrences xs =
     map (\<lambda>i. xs ! i) (filter (\<lambda>i. xs ! i \<notin> set (take i xs)) [0..<length xs])"

text \<open>What the loop of \<open>analyzeBatch\<close> leaves as it is: everything but the progress.\<close>

definition kept :: "world \<Rightarrow> world \<Rightarrow> bool" where
  "kept w w' =
     (results (state w') = results (state w) \<and> batches (state w') = batches (state w)
      \<and> isLoading (state w') = isLoading (state w) \<and> error (state w') = error (state w)
      \<and> sentimentResults w' = sentimentResults w \<and> sentimentBatches w' = sentimentBatches w)"

text \<open>
  The result identifiers of two batches with different batch identifiers do not overlap.
\<close>

definition batches_apart :: "world \<Rightarrow> bool" where
  "batches_apart w =
     (\<forall>b \<in> set (batches (state w)). \<forall>c \<in> set (batches (state w)).
        batch_id b \<noteq> batch_id c \<longrightarrow>
        set (map result_id (batch_results b)) \<inter> set (map result_id (batch_results c)) = {})"

subsection \<open>Example inputs\<close>

text \<open>
  A reply of the fallback model, which labels with one to five stars, and a reply with two
  equal scores.
\<close>

definition star_reply :: "HuggingFaceResponse list" where
  "star_reply =
     [\<lparr>label = ''5 stars'', score = 0.5\<rparr>, \<lparr>label = ''4 stars'', score = 0.3\<rparr>,
      \<lparr>label = ''3 stars'', score = 0.1\<rparr>, \<lparr>label = ''2 stars'', score = 0.05\<rparr>,
      \<lparr>label = ''1 star'', score = 0.05\<rparr>]"

definition tie_reply :: "HuggingFaceResponse list" where
  "tie_reply = [\<lparr>label = ''positive'', score = 0.5\<rparr>, \<lparr>label = ''negative'', score = 0.5\<rparr>]"

text \<open>Random draws that are all 0, and a number rendering that prints nothing.\<close>

definition zero_draws :: demo_random where
  "zero_draws = \<lparr>delay_draw = 0, confidence_draw = 0, positive_draw = 0, negative_draw = 0,
                 neutral_draw = 0\<rparr>"

definition show_none :: "real \<Rightarrow> string" where
  "show_none x = []"

text \<open>
  An analysis service that fails on one text, with result identifiers \<open>r\<close>, \<open>rr\<close>, ...;
  and a store with one batch of one result and a standalone result of the same text.
\<close>

definition sample_analysis :: analysis where
  "sample_analysis =
     \<lparr>sentiment = Positive, confidence = 0.73,
      scores = \<lparr>positive = 0.73, negative = 0.12, neutral = 0.15\<rparr>,
      key_words = [\<lparr>word = ''good'', kw_sentiment = Positive, weight = 0.8\<rparr>],
      explanation = []\<rparr>"

definition sample_env :: hook_env where
  "sample_env =
     \<lparr>analyse = (\<lambda>useDemo i txt. if txt = ''bad input''
                                   then Inl (Error ''Rate limit exceeded'')
                                   else Inr sample_analysis),
      new_result_id = (\<lambda>i. replicate (Suc i) CHR ''r''),
      result_time = (\<lambda>i. i),
      new_batch_id = ''b1'',
      batch_time = 7\<rparr>"

definition member_result :: SentimentResult where
  "member_result = make_result sample_env 0 ''good'' sample_analysis"

definition standalone_result :: SentimentResult where
  "standalone_result = member_result\<lparr>result_id := ''s''\<rparr>"

definition sample_batch :: BatchResult where
  "sample_batch = make_batch sample_env ''first'' [member_result]"

definition sample_world :: world where
  "sample_world =
     \<lparr>state = \<lparr>isLoading = False, progress = 100, error = None,
               results = [standalone_result, member_result], batches = [sample_batch]\<rparr>,
      sentimentResults = Some [standalone_result, member_result],
      sentimentBatches = Some [stringify_batch sample_batch]\<rparr>"

section \<open>Properties\<close>

subsection \<open>Score normalisation\<close>

lemma star_labels:
  "mapSentimentLabel ''5 stars'' = Positive" "mapSentimentLabel ''4 stars'' = Positive"
  "mapSentimentLabel ''3 stars'' = Neutral" "mapSentimentLabel ''2 stars'' = Negative"
  "mapSentimentLabel ''1 star'' = Negative"
  by (simp_all add: mapSentimentLabel_def toLowerCase_def lower_char_def)

lemma polarity_labels:
  "mapSentimentLabel ''positive'' = Positive" "mapSentimentLabel ''negative'' = Negative"
  by (simp_all add: mapSentimentLabel_def toLowerCase_def lower_char_def)

lemma collect_star_reply:
  "collect_scores star_reply = (\<lparr>positive = 3/10, negative = 1/20, neutral = 1/10\<rparr>, 1)"
  by (simp add: collect_scores_def star_reply_def score_step_def star_labels clamp01_def
      zero_scores_def)

lemma clamp01_bounds: "0 \<le> clamp01 x" "clamp01 x \<le> 1"
  by (simp_all add: clamp01_def)

lemma score_of_set_score:
  "score_of (set_score sc m v) b = (if b = m then v else score_of sc b)"
  by (cases m; cases b) simp_all

lemma scores_sum_set_score:
  "scores_sum (set_score sc m v) = scores_sum sc - score_of sc m + v"
  by (cases m) (simp_all add: scores_sum_def)

lemma collect_fold_distinct:
  assumes "distinct (map (\<lambda>r. mapSentimentLabel (label r)) rs)"
    and "\<forall>r \<in> set rs. score_of sc (mapSentimentLabel (label r)) = 0"
    and "\<forall>b. 0 \<le> score_of sc b"
  shows "snd (foldl score_step (sc, t) rs) = t + clamped_total rs
    \<and> scores_sum (fst (foldl score_step (sc, t) rs)) = scores_sum sc + clamped_total rs
    \<and> (\<forall>b. 0 \<le> score_of (fst (foldl score_step (sc, t) rs)) b)"
  using assms
proof (induction rs arbitrary: sc t)
  case Nil
  then show ?case by (simp add: clamped_total_def)
next
  case (Cons r rs)
  let ?m = "mapSentimentLabel (label r)"
  let ?sc = "set_score sc ?m (clamp01 (score r))"
  have step: "score_step (sc, t) r = (?sc, t + clamp01 (score r))"
    by (simp add: score_step_def Let_def score_of_set_score)
  have d: "distinct (map (\<lambda>r. mapSentimentLabel (label r)) rs)"
    using Cons.prems(1) by simp
  have z: "\<forall>q \<in> set rs. score_of ?sc (mapSentimentLabel (label q)) = 0"
  proof
    fix q assume q: "q \<in> set rs"
    with Cons.prems(1) have "mapSentimentLabel (label q) \<noteq> ?m"
      by (auto simp: image_iff)
    with q Cons.prems(2) show "score_of ?sc (mapSentimentLabel (label q)) = 0"
      by (simp add: score_of_set_score)
  qed
  have n: "\<forall>b. 0 \<le> score_of ?sc b"
    using Cons.prems(3) by (simp add: score_of_set_score clamp01_bounds)
  have s: "scores_sum ?sc = scores_sum sc + clamp01 (score r)"
    using Cons.prems(2) by (simp add: scores_sum_set_score)
  from Cons.IH [OF d z n, of "t + clamp01 (score r)"] s
  show ?case
    by (simp add: step clamped_total_def)
qed

text \<open>
  When no two labels of the reply are mapped to the same bucket, the normalised triple is
  all zero if the clamped scores sum to 0 and sums to 1 within 0.01 otherwise.
\<close>

lemma normalize_scores_distinct_buckets:
  assumes "distinct (map (\<lambda>r. mapSentimentLabel (label r)) rs)"
  shows "(clamped_total rs = 0 \<longrightarrow> normalize_scores rs = zero_scores)
       \<and> (clamped_total rs \<noteq> 0 \<longrightarrow> \<bar>scores_sum (normalize_scores rs) - 1\<bar> \<le> 0.01)"
proof -
  obtain sc t where c: "collect_scores rs = (sc, t)"
    by (cases "collect_scores rs")
  have z: "\<forall>r \<in> set rs. score_of zero_scores (mapSentimentLabel (label r)) = 0"
    "\<forall>b. 0 \<le> score_of zero_scores b"
  proof -
    have "score_of zero_scores b = 0" for b
      by (cases b) (simp_all add: zero_scores_def)
    then show "\<forall>r \<in> set rs. score_of zero_scores (mapSentimentLabel (label r)) = 0"
      "\<forall>b. 0 \<le> score_of zero_scores b"
      by simp_all
  qed
  from collect_fold_distinct [OF assms z, of 0] c
  have t: "t = clamped_total rs" and s: "scores_sum sc = clamped_total rs"
    and n: "\<forall>b. 0 \<le> score_of sc b"
    by (simp_all add: collect_scores_def scores_sum_def zero_scores_def)
  from n have nn: "0 \<le> positive sc" "0 \<le> negative sc" "0 \<le> neutral sc"
    using score_of.simps by metis+
  show ?thesis
  proof (intro conjI impI)
    assume "clamped_total rs = 0"
    with s t nn have "positive sc = 0" "negative sc = 0" "neutral sc = 0" "t = 0"
      by (simp_all add: scores_sum_def)
    then show "normalize_scores rs = zero_scores"
      by (simp add: normalize_scores_def c rescale_def zero_scores_def)
  next
    assume nz: "clamped_total rs \<noteq> 0"
    have "0 \<le> t" using s t nn by (simp add: scores_sum_def)
    with nz t have pos: "0 < t" by simp
    show "\<bar>scores_sum (normalize_scores rs) - 1\<bar> \<le> 0.01"
    proof (cases "\<bar>t - 1\<bar> > 0.01")
      case True
      with pos have "scores_sum (normalize_scores rs) = (positive sc + negative sc + neutral sc) / t"
        by (simp add: normalize_scores_def c rescale_def scores_sum_def add_divide_distrib)
      also have "\<dots> = 1"
        using s t pos by (simp add: scores_sum_def)
      finally show ?thesis by simp
    next
      case False
      then have "normalize_scores rs = sc"
        by (simp add: normalize_scores_def c rescale_def)
      with False s t show ?thesis by simp
    qed
  qed
qed

text \<open>
  C1. The claim: the normalised triple sums to 1 within 0.01, or is all zero exactly when
  the clamped input scores sum to 0. On the five-star reply the code returns
  (0.3, 0.05, 0.1): the clamped scores sum to 1, so nothing is rescaled, but the buckets
  hold only the last score stored in each and sum to 0.45.
\<close>

theorem normalize_scores_star_reply:
  "normalize_scores star_reply = \<lparr>positive = 3/10, negative = 1/20, neutral = 1/10\<rparr>
   \<and> scores_sum (normalize_scores star_reply) = 9/20
   \<and> clamped_total star_reply = 1"
proof -
  have n: "normalize_scores star_reply = \<lparr>positive = 3/10, negative = 1/20, neutral = 1/10\<rparr>"
    by (simp add: normalize_scores_def collect_star_reply rescale_def)
  have t: "clamped_total star_reply = 1"
    by (simp add: clamped_total_def star_reply_def clamp01_def)
  show ?thesis
    by (simp add: n t scores_sum_def)
qed

text \<open>
  C2. The claim: before rescaling, a bucket holds the clamped sum of the raw scores of all
  labels mapped to it. On the five-star reply the positive bucket holds 0.3, the score of
  the label stored last, where the sum of the two positive labels is 0.8; the negative
  bucket holds 0.05 where the sum is 0.1.
\<close>

theorem collect_scores_overwrites:
  "score_of (fst (collect_scores star_reply)) Positive = 3/10
   \<and> bucket_sum_spec star_reply Positive = 4/5
   \<and> score_of (fst (collect_scores star_reply)) Negative = 1/20
   \<and> bucket_sum_spec star_reply Negative = 1/10"
proof -
  have b: "bucket_sum_spec star_reply Positive = 4/5" "bucket_sum_spec star_reply Negative = 1/10"
    by (simp_all add: bucket_sum_spec_def star_reply_def star_labels clamp01_def)
  show ?thesis
    by (simp add: collect_star_reply b)
qed

subsection \<open>The verdict\<close>

lemma pick_verdict_cases:
  "pick_verdict sc =
     Some (if neutral sc \<ge> positive sc \<and> neutral sc \<ge> negative sc then Neutral
           else if negative sc \<ge> positive sc then Negative else Positive)"
  by (auto simp: pick_verdict_def entries_def higher_def)

text \<open>
  C3 as stated fails: with positive and negative both at 0.5 the first maximum in the
  enumeration order is positive, and the verdict is negative.
\<close>

theorem pick_verdict_tie_counterexample:
  "positive (normalize_scores tie_reply) = negative (normalize_scores tie_reply)
   \<and> neutral (normalize_scores tie_reply) < positive (normalize_scores tie_reply)
   \<and> first_maximum_spec (normalize_scores tie_reply) = Positive
   \<and> pick_verdict (normalize_scores tie_reply) = Some Negative"
  by (simp add: normalize_scores_def collect_scores_def tie_reply_def score_step_def
      polarity_labels clamp01_def zero_scores_def rescale_def first_maximum_spec_def pick_verdict_cases)

text \<open>
  C3, amended. For every score distribution a verdict is selected, its score is the
  maximum, and every sentiment with the same score stands no later in the enumeration
  order positive, negative, neutral: among equal maxima the last one is the verdict.
\<close>

theorem pick_verdict_last_maximum:
  "\<exists>v. pick_verdict sc = Some v
       \<and> (\<forall>s. score_of sc s \<le> score_of sc v)
       \<and> (\<forall>s. score_of sc s = score_of sc v \<longrightarrow> rank s \<le> rank v)"
proof -
  have all: "(\<forall>s. P s) = (P Positive \<and> P Negative \<and> P Neutral)" for P
    by (metis sentiment.exhaust)
  show ?thesis
    unfolding pick_verdict_cases all by auto
qed

theorem pick_verdict_last_maximum_witness:
  "pick_verdict \<lparr>positive = 1/2, negative = 1/2, neutral = 0\<rparr> = Some Negative"
  using pick_verdict_last_maximum [of "\<lparr>positive = 1/2, negative = 1/2, neutral = 0\<rparr>"]
  by (simp add: pick_verdict_cases)

subsection \<open>Keyword extraction\<close>

lemma findIndex_takeWhile:
  "findIndex p xs =
     (if \<exists>x \<in> set xs. p x then int (length (takeWhile (\<lambda>x. \<not> p x) xs)) else - 1)"
  by (induction xs) (auto simp: Let_def)

lemma findIndex_first:
  assumes "i < length xs" "p (xs ! i)"
  shows "(int i = findIndex p xs) = (\<forall>j < i. \<not> p (xs ! j))"
proof -
  have ex: "\<exists>x \<in> set xs. p x"
    using assms by (metis nth_mem)
  have "(i = length (takeWhile (\<lambda>x. \<not> p x) xs)) = (\<forall>j < i. \<not> p (xs ! j))"
  proof
    assume e: "i = length (takeWhile (\<lambda>x. \<not> p x) xs)"
    show "\<forall>j < i. \<not> p (xs ! j)"
    proof (intro allI impI)
      fix j assume "j < i"
      then have "j < length (takeWhile (\<lambda>x. \<not> p x) xs)" using e by simp
      then show "\<not> p (xs ! j)"
        by (metis nth_mem set_takeWhileD takeWhile_nth)
    qed
  next
    assume a: "\<forall>j < i. \<not> p (xs ! j)"
    have "i \<le> length (takeWhile (\<lambda>x. \<not> p x) xs)"
      using a assms(1) by (simp add: length_takeWhile_less_P_nth)
    moreover have "\<not> i < length (takeWhile (\<lambda>x. \<not> p x) xs)"
    proof
      assume "i < length (takeWhile (\<lambda>x. \<not> p x) xs)"
      then have "\<not> p (xs ! i)"
        by (metis nth_mem set_takeWhileD takeWhile_nth)
      then show False using assms(2) by simp
    qed
    ultimately show "i = length (takeWhile (\<lambda>x. \<not> p x) xs)" by simp
  qed
  then show ?thesis
    using ex by (auto simp: findIndex_takeWhile)
qed

lemma zip_upt_nth: "zip xs [0..<length xs] = map (\<lambda>i. (xs ! i, i)) [0..<length xs]"
  by (rule nth_equalityI) simp_all

lemma filter_indexed_nth:
  "filter_indexed p xs = map (\<lambda>i. xs ! i) (filter (\<lambda>i. p (xs ! i) i xs) [0..<length xs])"
  by (simp add: filter_indexed_def zip_upt_nth filter_map o_def)

lemma uniqueKeywords_first:
  "uniqueKeywords ks =
     map (\<lambda>i. ks ! i)
       (filter (\<lambda>i. \<forall>j < i. word (ks ! j) \<noteq> word (ks ! i)) [0..<length ks])"
proof -
  have "filter (\<lambda>i. int i = findIndex (\<lambda>k. word k = word (ks ! i)) ks) [0..<length ks]
        = filter (\<lambda>i. \<forall>j < i. word (ks ! j) \<noteq> word (ks ! i)) [0..<length ks]"
    by (rule filter_cong) (auto simp: findIndex_first)
  then show ?thesis
    by (simp add: uniqueKeywords_def filter_indexed_nth)
qed

lemma distinct_uniqueKeywords: "distinct (map word (uniqueKeywords ks))"
proof -
  let ?keep = "filter (\<lambda>i. \<forall>j < i. word (ks ! j) \<noteq> word (ks ! i)) [0..<length ks]"
  have "inj_on (\<lambda>i. word (ks ! i)) (set ?keep)"
  proof (rule inj_onI)
    fix a b assume a: "a \<in> set ?keep" and b: "b \<in> set ?keep"
      and e: "word (ks ! a) = word (ks ! b)"
    show "a = b"
    proof (rule ccontr)
      assume "a \<noteq> b"
      then consider "a < b" | "b < a" by linarith
      then show False using a b e by cases auto
    qed
  qed
  then have "distinct (map (\<lambda>i. word (ks ! i)) ?keep)"
    by (simp add: distinct_map)
  then show ?thesis
    by (simp add: uniqueKeywords_first o_def)
qed

lemma set_uniqueKeywords: "set (uniqueKeywords ks) \<subseteq> set ks"
  by (auto simp: uniqueKeywords_first)


lemma word_collect_keywords: "map word (collect_keywords ws) = filter in_lexicon ws"
  by (induction ws) (auto simp: in_lexicon_def)

lemma collect_keywords_entry:
  "k \<in> set (collect_keywords ws) \<Longrightarrow>
     weight k = 0.8 \<and> in_lexicon (word k)
     \<and> kw_sentiment k = (if word k \<in> set positiveWords then Positive else Negative)"
  by (induction ws) (auto simp: in_lexicon_def split: if_splits)

lemma example_words:
  "words_of ''This is an amazing and wonderful product'' =
     [''this'', ''is'', ''an'', ''amazing'', ''and'', ''wonderful'', ''product'']"
  by code_simp

lemma example_hits:
  "collect_keywords [''this'', ''is'', ''an'', ''amazing'', ''and'', ''wonderful'', ''product''] =
     [\<lparr>word = ''amazing'', kw_sentiment = Positive, weight = 0.8\<rparr>,
      \<lparr>word = ''wonderful'', kw_sentiment = Positive, weight = 0.8\<rparr>]"
  by (simp add: positiveWords_def negativeWords_def)

lemma example_unique:
  "uniqueKeywords [\<lparr>word = ''amazing'', kw_sentiment = Positive, weight = 0.8\<rparr>,
      \<lparr>word = ''wonderful'', kw_sentiment = Positive, weight = 0.8\<rparr>] =
    [\<lparr>word = ''amazing'', kw_sentiment = Positive, weight = 0.8\<rparr>,
      \<lparr>word = ''wonderful'', kw_sentiment = Positive, weight = 0.8\<rparr>]"
  by (simp add: uniqueKeywords_def filter_indexed_def upt_rec)

lemma lexicons_disjoint: "set positiveWords \<inter> set negativeWords = {}"
  by (simp add: positiveWords_def negativeWords_def)

lemma word_uniqueKeywords:
  "map word (uniqueKeywords ks) = first_occurrences (map word ks)"
proof -
  have "filter (\<lambda>i. \<forall>j < i. word (ks ! j) \<noteq> word (ks ! i)) [0..<length ks]
        = filter (\<lambda>i. map word ks ! i \<notin> set (take i (map word ks))) [0..<length ks]"
  proof (rule filter_cong)
    fix i assume "i \<in> set [0..<length ks]"
    then have i: "i < length ks" by simp
    then have "set (take i (map word ks)) = (\<lambda>j. word (ks ! j)) ` {0..<i}"
      using nth_image [of i "map word ks"] by (auto simp: image_iff)
    then have "(map word ks ! i \<in> set (take i (map word ks)))
               = (\<exists>j < i. word (ks ! j) = word (ks ! i))"
      using i by (simp add: image_iff Bex_def) metis
    then show "(\<forall>j < i. word (ks ! j) \<noteq> word (ks ! i))
               = (map word ks ! i \<notin> set (take i (map word ks)))"
      by blast
  qed simp
  then show ?thesis
    by (simp add: uniqueKeywords_first first_occurrences_def o_def cong: map_cong)
qed

text \<open>
  C8. For every text and verdict argument, \<open>extractKeywords\<close> returns at most 5 entries
  with pairwise different words; the words are the first five distinct lexicon hits in
  scan order (of equal words the first occurrence is kept); every entry has weight 0.8
  and the sentiment of the lexicon its word belongs to; the verdict argument does not
  change the result; and the example sentence gives the entries for "amazing" and
  "wonderful".
\<close>

theorem extractKeywords_properties:
  "length (extractKeywords t v) \<le> 5
   \<and> distinct (map word (extractKeywords t v))
   \<and> map word (extractKeywords t v)
       = take 5 (first_occurrences (filter in_lexicon (words_of t)))
   \<and> (\<forall>k \<in> set (extractKeywords t v).
         weight k = 0.8 \<and> in_lexicon (word k)
         \<and> (word k \<in> set positiveWords \<longrightarrow> kw_sentiment k = Positive)
         \<and> (word k \<in> set negativeWords \<longrightarrow> kw_sentiment k = Negative))
   \<and> extractKeywords t v = extractKeywords t v'
   \<and> extractKeywords ''This is an amazing and wonderful product'' v =
       [\<lparr>word = ''amazing'', kw_sentiment = Positive, weight = 0.8\<rparr>,
        \<lparr>word = ''wonderful'', kw_sentiment = Positive, weight = 0.8\<rparr>]"
proof (intro conjI)
  show "length (extractKeywords t v) \<le> 5"
    by (simp add: extractKeywords_def)
  show "distinct (map word (extractKeywords t v))"
    by (simp add: extractKeywords_def take_map [symmetric] distinct_take distinct_uniqueKeywords)
  show "map word (extractKeywords t v) = take 5 (first_occurrences (filter in_lexicon (words_of t)))"
    by (simp add: extractKeywords_def take_map [symmetric] word_uniqueKeywords
        word_collect_keywords)
  show "\<forall>k \<in> set (extractKeywords t v).
         weight k = 0.8 \<and> in_lexicon (word k)
         \<and> (word k \<in> set positiveWords \<longrightarrow> kw_sentiment k = Positive)
         \<and> (word k \<in> set negativeWords \<longrightarrow> kw_sentiment k = Negative)"
  proof
    fix k assume "k \<in> set (extractKeywords t v)"
    then have "k \<in> set (collect_keywords (words_of t))"
      using set_uniqueKeywords by (auto simp: extractKeywords_def dest: in_set_takeD)
    from collect_keywords_entry [OF this] lexicons_disjoint
    show "weight k = 0.8 \<and> in_lexicon (word k)
         \<and> (word k \<in> set positiveWords \<longrightarrow> kw_sentiment k = Positive)
         \<and> (word k \<in> set negativeWords \<longrightarrow> kw_sentiment k = Negative)"
      by auto
  qed
  show "extractKeywords t v = extractKeywords t v'"
    by (simp add: extractKeywords_def)
  show "extractKeywords ''This is an amazing and wonderful product'' v =
       [\<lparr>word = ''amazing'', kw_sentiment = Positive, weight = 0.8\<rparr>,
        \<lparr>word = ''wonderful'', kw_sentiment = Positive, weight = 0.8\<rparr>]"
    by (simp only: extractKeywords_def example_words example_hits example_unique) simp
qed

lemma witness_words: "words_of ''Good, bad, GOOD!'' = [''good'', ''bad'', ''good'']"
  by code_simp

lemma witness_hits: "filter in_lexicon [''good'', ''bad'', ''good''] = [''good'', ''bad'', ''good'']"
  by (simp add: in_lexicon_def positiveWords_def negativeWords_def)


lemma witness_first: "first_occurrences [''good'', ''bad'', ''good''] = [''good'', ''bad'']"
  by code_simp

theorem extractKeywords_properties_witness:
  "map word (extractKeywords ''Good, bad, GOOD!'' Neutral) = [''good'', ''bad'']"
proof -
  have "map word (extractKeywords ''Good, bad, GOOD!'' Neutral)
        = take 5 (first_occurrences (filter in_lexicon (words_of ''Good, bad, GOOD!'')))"
    using extractKeywords_properties [of "''Good, bad, GOOD!''" Neutral Neutral] by blast
  then show ?thesis
    by (simp only: witness_words witness_hits witness_first) simp
qed

subsection \<open>The demo analysis\<close>

lemma count_hits_fold:
  "foldl (count_step pos neg) (p, n) ws =
     (p + length (filter (\<lambda>w. w \<in> set pos) ws), n + length (filter (\<lambda>w. w \<in> set neg) ws))"
  by (induction ws arbitrary: p n) (auto simp: count_step_def)

lemma count_hits_filter:
  "count_hits pos neg ws =
     (length (filter (\<lambda>w. w \<in> set pos) ws), length (filter (\<lambda>w. w \<in> set neg) ws))"
  by (simp add: count_hits_def count_hits_fold)

lemma nice_words: "words_of ''nice'' = [''nice'']"
  by code_simp

text \<open>
  C9 as stated fails: the demo analysis does not count with the word lists of the keyword
  extractor. The text "nice" has one positive hit in the extractor's lists, which yield
  the keyword, and no hit in the demo's lists, so the verdict is neutral.
\<close>

theorem demo_lists_differ_counterexample:
  "count_hits positiveWords negativeWords (words_of ''nice'') = (1, 0)
   \<and> count_hits demo_positiveWords demo_negativeWords (words_of ''nice'') = (0, 0)
   \<and> sentiment (analyzeSentimentDemo show_none zero_draws ''nice'') = Neutral
   \<and> map word (extractKeywords ''nice'' Neutral) = [''nice'']"
proof -
  have a: "count_hits positiveWords negativeWords (words_of ''nice'') = (1, 0)"
    by (simp add: nice_words count_hits_filter positiveWords_def negativeWords_def)
  have b: "count_hits demo_positiveWords demo_negativeWords (words_of ''nice'') = (0, 0)"
    by (simp add: nice_words count_hits_filter demo_positiveWords_def demo_negativeWords_def)
  have c: "sentiment (analyzeSentimentDemo show_none zero_draws ''nice'') = Neutral"
    by (simp add: analyzeSentimentDemo_def b Let_def)
  have d: "map word (extractKeywords ''nice'' Neutral) = [''nice'']"
    by (simp add: extractKeywords_def nice_words uniqueKeywords_def filter_indexed_def
        positiveWords_def)
  show ?thesis using a b c d by simp
qed

text \<open>
  C9, amended. The demo analysis counts hits in its own two word lists, which are the
  first 18 entries of the lists of the keyword extractor. With \<open>p\<close> positive and \<open>n\<close>
  negative hits, \<open>p > n\<close> gives a positive verdict with confidence
  \<open>min (0.65 + 0.08 p) 0.92\<close>, \<open>n > p\<close> the same for negative with \<open>n\<close>, and \<open>p = n\<close>
  (also when both are 0) a neutral verdict, with confidence 0.55 plus a quarter of a
  random draw.
\<close>

theorem analyzeSentimentDemo_verdict:
  "demo_positiveWords = take 18 positiveWords
   \<and> demo_negativeWords = take 18 negativeWords
   \<and> (let p = length (filter (\<lambda>w. w \<in> set demo_positiveWords) (words_of t));
          n = length (filter (\<lambda>w. w \<in> set demo_negativeWords) (words_of t));
          a = analyzeSentimentDemo f rnd t
      in (p > n \<longrightarrow> sentiment a = Positive \<and> confidence a = min (0.65 + 0.08 * real p) 0.92)
       \<and> (n > p \<longrightarrow> sentiment a = Negative \<and> confidence a = min (0.65 + 0.08 * real n) 0.92)
       \<and> (p = n \<longrightarrow> sentiment a = Neutral
                     \<and> confidence a = 0.55 + confidence_draw rnd * 0.25))"
proof (intro conjI)
  show "demo_positiveWords = take 18 positiveWords"
    by (simp add: demo_positiveWords_def positiveWords_def)
  show "demo_negativeWords = take 18 negativeWords"
    by (simp add: demo_negativeWords_def negativeWords_def)
  show "let p = length (filter (\<lambda>w. w \<in> set demo_positiveWords) (words_of t));
          n = length (filter (\<lambda>w. w \<in> set demo_negativeWords) (words_of t));
          a = analyzeSentimentDemo f rnd t
      in (p > n \<longrightarrow> sentiment a = Positive \<and> confidence a = min (0.65 + 0.08 * real p) 0.92)
       \<and> (n > p \<longrightarrow> sentiment a = Negative \<and> confidence a = min (0.65 + 0.08 * real n) 0.92)
       \<and> (p = n \<longrightarrow> sentiment a = Neutral
                     \<and> confidence a = 0.55 + confidence_draw rnd * 0.25)"
    by (simp add: analyzeSentimentDemo_def count_hits_filter Let_def mult.commute)
qed

lemma demo_witness_words: "words_of ''good good bad'' = [''good'', ''good'', ''bad'']"
  by code_simp

theorem analyzeSentimentDemo_verdict_witness:
  "sentiment (analyzeSentimentDemo show_none zero_draws ''good good bad'') = Positive
   \<and> confidence (analyzeSentimentDemo show_none zero_draws ''good good bad'') = 0.81"
  using analyzeSentimentDemo_verdict [of "''good good bad''" show_none zero_draws]
  by (simp add: demo_witness_words demo_positiveWords_def demo_negativeWords_def Let_def)

subsection \<open>Failover of the API call\<close>

lemma catch_status_error: "catch_network (Inl (status_error env r)) = Inl (status_error env r)"
  by (simp add: catch_network_def status_error_def)

lemma catch_Error: "catch_network (Inl (Error m)) = Inl (Error m)"
  by (simp add: catch_network_def)

lemma makeApiCall_fallback:
  assumes "k \<noteq> []" "startsWith k ''hf_''"
  shows "makeApiCall env (Some k) t True =
     (case fetch env (api_request FALLBACK_API_URL k t) of
        Rejects e \<Rightarrow> (catch_network (Inl e), [api_request FALLBACK_API_URL k t])
      | Responds r \<Rightarrow>
          (if ok r then catch_network (read_data env (responseText r))
           else if status r = 404 then Inl (Error model_not_found)
           else Inl (status_error env r),
           [api_request FALLBACK_API_URL k t]))"
  using assms
  by (subst makeApiCall.simps)
     (simp add: Let_def catch_status_error catch_Error split: fetch_outcome.splits)

lemma makeApiCall_primary_404:
  assumes "k \<noteq> []" "startsWith k ''hf_''"
    and "fetch env (api_request HUGGINGFACE_API_URL k t) = Responds r1" "status r1 = 404"
  shows "makeApiCall env (Some k) t False =
     (fst (makeApiCall env (Some k) t True),
      api_request HUGGINGFACE_API_URL k t # snd (makeApiCall env (Some k) t True))"
  using assms
  by (subst makeApiCall.simps) (simp add: Let_def ok_def split: prod.splits)

text \<open>
  C7. With a well-formed key, when the primary address answers 404 the call sends exactly
  two requests, the primary and then the fallback one, and settles as the call on the
  fallback address does. If the fallback answers with a failure status, 404 gives the
  model-not-found error and every other status the error of that status: 401, 403, 429
  and 503 their fixed messages, any other status the message built from the response.
\<close>

theorem makeApiCall_failover:
  assumes "k \<noteq> []" "startsWith k ''hf_''"
    and "fetch env (api_request HUGGINGFACE_API_URL k t) = Responds r1" "status r1 = 404"
  shows "snd (makeApiCall env (Some k) t False) =
           [api_request HUGGINGFACE_API_URL k t, api_request FALLBACK_API_URL k t]
     \<and> fst (makeApiCall env (Some k) t False) = fst (makeApiCall env (Some k) t True)
     \<and> (\<forall>r2. fetch env (api_request FALLBACK_API_URL k t) = Responds r2 \<and> \<not> ok r2 \<longrightarrow>
           fst (makeApiCall env (Some k) t False) =
             Inl (Error (if status r2 = 404 then model_not_found
                         else if status r2 = 401 then invalid_api_key
                         else if status r2 = 403 then access_forbidden
                         else if status r2 = 429 then rate_limit
                         else if status r2 = 503 then model_loading
                         else error_message env r2)))"
proof -
  note p = makeApiCall_primary_404 [OF assms]
  note f = makeApiCall_fallback [OF assms(1,2), of env t]
  have "snd (makeApiCall env (Some k) t True) = [api_request FALLBACK_API_URL k t]"
    by (simp add: f split: fetch_outcome.splits)
  then have 1: "snd (makeApiCall env (Some k) t False) =
           [api_request HUGGINGFACE_API_URL k t, api_request FALLBACK_API_URL k t]"
    by (simp add: p)
  have 2: "fst (makeApiCall env (Some k) t False) = fst (makeApiCall env (Some k) t True)"
    by (simp add: p)
  have 3: "fst (makeApiCall env (Some k) t True) =
             Inl (Error (if status r2 = 404 then model_not_found
                         else if status r2 = 401 then invalid_api_key
                         else if status r2 = 403 then access_forbidden
                         else if status r2 = 429 then rate_limit
                         else if status r2 = 503 then model_loading
                         else error_message env r2))"
    if "fetch env (api_request FALLBACK_API_URL k t) = Responds r2" "\<not> ok r2" for r2
    using that by (simp add: f status_error_def)
  show ?thesis
    using 1 2 3 by simp
qed

lemma urls_differ: "HUGGINGFACE_API_URL \<noteq> FALLBACK_API_URL"
  by (simp add: HUGGINGFACE_API_URL_def FALLBACK_API_URL_def)

theorem makeApiCall_failover_witness:
  "makeApiCall failover_env (Some ''hf_key'') ''great'' False =
     (Inl (Error rate_limit),
      [api_request HUGGINGFACE_API_URL ''hf_key'' ''great'',
       api_request FALLBACK_API_URL ''hf_key'' ''great''])"
proof -
  have a: "''hf_key'' \<noteq> []" "startsWith ''hf_key'' ''hf_''"
    by simp_all
  have b: "fetch failover_env (api_request HUGGINGFACE_API_URL ''hf_key'' ''great'') =
             Responds \<lparr>status = 404, statusText = ''Not Found'', responseText = []\<rparr>"
    by (simp add: failover_env_def api_request_def urls_differ)
  have c: "fetch failover_env (api_request FALLBACK_API_URL ''hf_key'' ''great'') =
             Responds \<lparr>status = 429, statusText = ''Too Many Requests'', responseText = []\<rparr>"
    by (simp add: failover_env_def api_request_def)
  have d: "\<not> ok \<lparr>status = 429, statusText = ''Too Many Requests'', responseText = []\<rparr>"
    by (simp add: ok_def)
  have e: "status \<lparr>status = 404, statusText = ''Not Found'', responseText = []\<rparr> = 404"
    by simp
  note th = makeApiCall_failover [OF a b e]
  have s: "snd (makeApiCall failover_env (Some ''hf_key'') ''great'' False) =
     [api_request HUGGINGFACE_API_URL ''hf_key'' ''great'',
      api_request FALLBACK_API_URL ''hf_key'' ''great'']"
    using th by blast
  have "fst (makeApiCall failover_env (Some ''hf_key'') ''great'' False) =
     Inl (Error (if status \<lparr>status = 429, statusText = ''Too Many Requests'', responseText = []\<rparr> = 404 then model_not_found
                         else if status \<lparr>status = 429, statusText = ''Too Many Requests'', responseText = []\<rparr> = 401 then invalid_api_key
                         else if status \<lparr>status = 429, statusText = ''Too Many Requests'', responseText = []\<rparr> = 403 then access_forbidden
                         else if status \<lparr>status = 429, statusText = ''Too Many Requests'', responseText = []\<rparr> = 429 then rate_limit
                         else if status \<lparr>status = 429, statusText = ''Too Many Requests'', responseText = []\<rparr> = 503 then model_loading
                         else error_message failover_env \<lparr>status = 429, statusText = ''Too Many Requests'', responseText = []\<rparr>))"
    using th c d by blast
  then have f: "fst (makeApiCall failover_env (Some ''hf_key'') ''great'' False) =
     Inl (Error rate_limit)"
    by simp
  show ?thesis
    using s f by (simp add: prod_eq_iff)
qed

subsection \<open>The loop of analyzeBatch\<close>

lemma kept_refl: "kept w w"
  by (simp add: kept_def)

lemma kept_setState_progress:
  "kept w0 w \<Longrightarrow> kept w0 (setState (\<lambda>prev. prev\<lparr>progress := x\<rparr>) w)"
  by (simp add: kept_def setState_def)

lemma batch_loop_kept_from:
  "kept w0 w \<Longrightarrow> kept w0 (snd (batch_loop env d n i ts rs w))"
proof (induction ts arbitrary: i rs w)
  case Nil
  then show ?case by simp
next
  case (Cons t ts)
  have k: "kept w0 (setState (\<lambda>prev. prev\<lparr>progress := (real (i + 1) / real n) * 100\<rparr>) w)"
    using Cons.prems by (rule kept_setState_progress)
  show ?case
  proof (cases "analyse env d i t")
    case (Inl e)
    then show ?thesis
      using Cons.IH [OF k] Cons.prems by simp
  next
    case (Inr a)
    then show ?thesis
      using Cons.IH [OF k] by simp
  qed
qed

lemma batch_loop_kept: "kept w (snd (batch_loop env d n i ts rs w))"
  by (rule batch_loop_kept_from) (rule kept_refl)

lemma batch_loop_fails:
  assumes "j < length ts" "trim (ts ! j) \<noteq> []" "isl (analyse env d (i + j) (ts ! j))"
  shows "\<exists>e k. k \<le> j \<and> trim (ts ! k) \<noteq> [] \<and> analyse env d (i + k) (ts ! k) = Inl e
           \<and> fst (batch_loop env d n i ts rs w) = Inl e"
  using assms
proof (induction ts arbitrary: i j rs w)
  case Nil
  then show ?case by simp
next
  case (Cons t ts)
  show ?case
  proof (cases j)
    case 0
    with Cons.prems obtain e where "analyse env d i t = Inl e"
      by (auto simp: isl_def)
    with Cons.prems 0 show ?thesis
      by (intro exI [of _ e] exI [of _ 0]) simp
  next
    case (Suc j')
    show ?thesis
    proof (cases "trim t \<noteq> [] \<and> isl (analyse env d i t)")
      case True
      then obtain e where "analyse env d i t = Inl e"
        by (auto simp: isl_def)
      with True show ?thesis
        by (intro exI [of _ e] exI [of _ 0]) simp
    next
      case False
      from Cons.prems Suc have p: "j' < length ts" "trim (ts ! j') \<noteq> []"
        "isl (analyse env d (Suc i + j') (ts ! j'))"
        by simp_all
      from False show ?thesis
      proof (cases "trim t \<noteq> []")
        case True
        with False obtain a where a: "analyse env d i t = Inr a"
          by (cases "analyse env d i t") auto
        from Cons.IH [OF p, of "rs @ [make_result env i t a]"
            "setState (\<lambda>prev. prev\<lparr>progress := (real (i + 1) / real n) * 100\<rparr>) w"]
        obtain e k where "k \<le> j'" "trim (ts ! k) \<noteq> []"
          "analyse env d (Suc i + k) (ts ! k) = Inl e"
          "fst (batch_loop env d n (Suc i) ts (rs @ [make_result env i t a])
            (setState (\<lambda>prev. prev\<lparr>progress := (real (i + 1) / real n) * 100\<rparr>) w)) = Inl e"
          by blast
        with True a Suc show ?thesis
          by (intro exI [of _ e] exI [of _ "Suc k"]) simp
      next
        case blank: False
        from Cons.IH [OF p, of rs
            "setState (\<lambda>prev. prev\<lparr>progress := (real (i + 1) / real n) * 100\<rparr>) w"]
        obtain e k where "k \<le> j'" "trim (ts ! k) \<noteq> []"
          "analyse env d (Suc i + k) (ts ! k) = Inl e"
          "fst (batch_loop env d n (Suc i) ts rs
            (setState (\<lambda>prev. prev\<lparr>progress := (real (i + 1) / real n) * 100\<rparr>) w)) = Inl e"
          by blast
        with blank Suc show ?thesis
          by (intro exI [of _ e] exI [of _ "Suc k"]) simp
      qed
    qed
  qed
qed

lemma batch_loop_blank:
  "\<forall>t \<in> set ts. trim t = [] \<Longrightarrow> fst (batch_loop env d n i ts rs w) = Inr rs"
  by (induction ts arbitrary: i w) auto

lemma batch_loop_ids:
  "fst (batch_loop env d n i ts rs w) = Inr rs' \<Longrightarrow>
     set (map result_id rs') \<subseteq>
       set (map result_id rs) \<union> {new_result_id env (i + j) | j. j < length ts \<and> trim (ts ! j) \<noteq> []}"
proof (induction ts arbitrary: i rs w)
  case Nil
  then show ?case by simp
next
  case (Cons t ts)
  have shift: "{new_result_id env (Suc i + j) | j. j < length ts \<and> trim (ts ! j) \<noteq> []}
        \<subseteq> {new_result_id env (i + j) | j. j < length (t # ts) \<and> trim ((t # ts) ! j) \<noteq> []}"
  proof
    fix x assume "x \<in> {new_result_id env (Suc i + j) | j. j < length ts \<and> trim (ts ! j) \<noteq> []}"
    then obtain j where "x = new_result_id env (Suc i + j)" "j < length ts" "trim (ts ! j) \<noteq> []"
      by blast
    then have "x = new_result_id env (i + Suc j) \<and> Suc j < length (t # ts)
        \<and> trim ((t # ts) ! Suc j) \<noteq> []"
      by simp
    then show "x \<in> {new_result_id env (i + j) | j. j < length (t # ts) \<and> trim ((t # ts) ! j) \<noteq> []}"
      by blast
  qed
  show ?case
  proof (cases "trim t \<noteq> []")
    case True
    with Cons.prems obtain a where a: "analyse env d i t = Inr a"
      by (cases "analyse env d i t") auto
    with True Cons.prems have "fst (batch_loop env d n (Suc i) ts (rs @ [make_result env i t a])
        (setState (\<lambda>prev. prev\<lparr>progress := (real (i + 1) / real n) * 100\<rparr>) w)) = Inr rs'"
      by simp
    from Cons.IH [OF this]
    have m1: "set (map result_id rs') \<subseteq> set (map result_id rs)
        \<union> {result_id (make_result env i t a)}
        \<union> {new_result_id env (Suc i + j) | j. j < length ts \<and> trim (ts ! j) \<noteq> []}"
      by simp
    have "result_id (make_result env i t a) = new_result_id env (i + 0)
        \<and> 0 < length (t # ts) \<and> trim ((t # ts) ! 0) \<noteq> []"
      using True by (simp add: make_result_def)
    then have m2: "result_id (make_result env i t a)
        \<in> {new_result_id env (i + j) | j. j < length (t # ts) \<and> trim ((t # ts) ! j) \<noteq> []}"
      by blast
    show ?thesis
      using m1 m2 shift by blast
  next
    case False
    with Cons.prems have "fst (batch_loop env d n (Suc i) ts rs
        (setState (\<lambda>prev. prev\<lparr>progress := (real (i + 1) / real n) * 100\<rparr>) w)) = Inr rs'"
      by simp
    from Cons.IH [OF this] shift show ?thesis
      by blast
  qed
qed

subsection \<open>analyzeBatch\<close>

lemma trim_good: "trim ''good'' \<noteq> []" "trim ''bad input'' \<noteq> []" "trim '''' = []" "trim ''  '' = []"
  "trim [CHR 0xA0, CHR 0x09] = []"
  by (simp_all add: trim_def white_space_def)

lemma error_text_cases:
  "error_text fallback e = (case e of Error m \<Rightarrow> m | TypeError m \<Rightarrow> m | NonError \<Rightarrow> fallback)"
  by (cases e) simp_all

lemma analyzeBatch_loop_failure:
  assumes "fst (batch_loop env d (length texts) 0 texts []
             (setState (\<lambda>prev. prev\<lparr>isLoading := True, error := None, progress := 0\<rparr>) w)) = Inl e"
  shows "fst (analyzeBatch env texts nm d w) = Inl e
    \<and> results (state (snd (analyzeBatch env texts nm d w))) = results (state w)
    \<and> batches (state (snd (analyzeBatch env texts nm d w))) = batches (state w)
    \<and> sentimentResults (snd (analyzeBatch env texts nm d w)) = sentimentResults w
    \<and> sentimentBatches (snd (analyzeBatch env texts nm d w)) = sentimentBatches w
    \<and> isLoading (state (snd (analyzeBatch env texts nm d w))) = False
    \<and> error (state (snd (analyzeBatch env texts nm d w)))
        = Some (error_text ''Batch analysis failed'' e)"
proof -
  let ?w1 = "setState (\<lambda>prev. prev\<lparr>isLoading := True, error := None, progress := 0\<rparr>) w"
  obtain out w2 where l: "batch_loop env d (length texts) 0 texts [] ?w1 = (out, w2)"
    by (cases "batch_loop env d (length texts) 0 texts [] ?w1")
  with assms have out: "out = Inl e" by simp
  have "kept ?w1 w2"
    using batch_loop_kept [of ?w1 env d "length texts" 0 texts "[]"] l by simp
  then have k: "results (state w2) = results (state w)" "batches (state w2) = batches (state w)"
    "sentimentResults w2 = sentimentResults w" "sentimentBatches w2 = sentimentBatches w"
    by (simp_all add: kept_def setState_def)
  have "analyzeBatch env texts nm d w =
      (Inl e, setState (\<lambda>prev. prev\<lparr>isLoading := False,
                 error := Some (error_text ''Batch analysis failed'' e)\<rparr>) w2)"
    by (simp add: analyzeBatch_def Let_def l out)
  then show ?thesis
    using k by (simp add: setState_def)
qed

text \<open>
  C6. If the analysis of some non-blank text of the list fails, \<open>analyzeBatch\<close> fails with
  what the first failing analysis throws; the result and batch collections and both
  stored items are as before the call, the loading flag is cleared, and the recorded error
  is the message of what was thrown when that is an \<^verbatim>\<open>Error\<close> (also a
  \<^verbatim>\<open>TypeError\<close>) and the text "Batch analysis failed" otherwise.
\<close>

theorem analyzeBatch_all_or_nothing:
  assumes "j < length texts" "trim (texts ! j) \<noteq> []" "isl (analyse env d j (texts ! j))"
  shows "\<exists>e k. k \<le> j \<and> trim (texts ! k) \<noteq> [] \<and> analyse env d k (texts ! k) = Inl e
    \<and> fst (analyzeBatch env texts nm d w) = Inl e
    \<and> results (state (snd (analyzeBatch env texts nm d w))) = results (state w)
    \<and> batches (state (snd (analyzeBatch env texts nm d w))) = batches (state w)
    \<and> sentimentResults (snd (analyzeBatch env texts nm d w)) = sentimentResults w
    \<and> sentimentBatches (snd (analyzeBatch env texts nm d w)) = sentimentBatches w
    \<and> isLoading (state (snd (analyzeBatch env texts nm d w))) = False
    \<and> error (state (snd (analyzeBatch env texts nm d w)))
        = Some (case e of Error m \<Rightarrow> m | TypeError m \<Rightarrow> m
                | NonError \<Rightarrow> ''Batch analysis failed'')"
proof -
  from assms have "isl (analyse env d (0 + j) (texts ! j))" by simp
  from batch_loop_fails [OF assms(1,2) this, of "length texts" "[]"
      "setState (\<lambda>prev. prev\<lparr>isLoading := True, error := None, progress := 0\<rparr>) w"]
  obtain e k where ek: "k \<le> j" "trim (texts ! k) \<noteq> []" "analyse env d k (texts ! k) = Inl e"
    "fst (batch_loop env d (length texts) 0 texts []
       (setState (\<lambda>prev. prev\<lparr>isLoading := True, error := None, progress := 0\<rparr>) w)) = Inl e"
    by auto
  from analyzeBatch_loop_failure [OF ek(4), of nm] ek(1-3) show ?thesis
    unfolding error_text_cases by blast
qed

theorem analyzeBatch_all_or_nothing_witness:
  "fst (analyzeBatch sample_env [''good'', ''bad input''] ''second'' False sample_world)
     = Inl (Error ''Rate limit exceeded'')
   \<and> error (state (snd (analyzeBatch sample_env [''good'', ''bad input''] ''second'' False
      sample_world))) = Some ''Rate limit exceeded''
   \<and> results (state (snd (analyzeBatch sample_env [''good'', ''bad input''] ''second'' False
      sample_world))) = [standalone_result, member_result]
   \<and> batches (state (snd (analyzeBatch sample_env [''good'', ''bad input''] ''second'' False
      sample_world))) = [sample_batch]
   \<and> sentimentResults (snd (analyzeBatch sample_env [''good'', ''bad input''] ''second'' False
      sample_world)) = Some [standalone_result, member_result]
   \<and> sentimentBatches (snd (analyzeBatch sample_env [''good'', ''bad input''] ''second'' False
      sample_world)) = Some [stringify_batch sample_batch]
   \<and> \<not> isLoading (state (snd (analyzeBatch sample_env [''good'', ''bad input''] ''second'' False
      sample_world)))"
proof -
  let ?run = "analyzeBatch sample_env [''good'', ''bad input''] ''second'' False sample_world"
  have h: "1 < length [''good'', ''bad input'']" "trim ([''good'', ''bad input''] ! 1) \<noteq> []"
    "isl (analyse sample_env False 1 ([''good'', ''bad input''] ! 1))"
    by (simp_all add: trim_good sample_env_def)
  from analyzeBatch_all_or_nothing [OF h, of "''second''" sample_world]
  obtain e k where k: "k \<le> 1"
    and e: "analyse sample_env False k ([''good'', ''bad input''] ! k) = Inl e"
    and out: "fst ?run = Inl e"
    and kept: "results (state (snd ?run)) = results (state sample_world)"
      "batches (state (snd ?run)) = batches (state sample_world)"
      "sentimentResults (snd ?run) = sentimentResults sample_world"
      "sentimentBatches (snd ?run) = sentimentBatches sample_world"
      "isLoading (state (snd ?run)) = False"
    and err: "error (state (snd ?run))
        = Some (case e of Error m \<Rightarrow> m | TypeError m \<Rightarrow> m
                | NonError \<Rightarrow> ''Batch analysis failed'')"
    by blast
  from k have "k = 0 \<or> k = 1" by auto
  with e have "e = Error ''Rate limit exceeded''"
    by (auto simp: sample_env_def)
  with out err kept show ?thesis
    by (simp add: sample_world_def)
qed

lemma analyzeBatch_loop_success:
  assumes "fst (batch_loop env d (length texts) 0 texts []
             (setState (\<lambda>prev. prev\<lparr>isLoading := True, error := None, progress := 0\<rparr>) w)) = Inr rs"
  shows "fst (analyzeBatch env texts nm d w) = Inr (make_batch env nm rs)
    \<and> results (state (snd (analyzeBatch env texts nm d w))) = rs @ results (state w)
    \<and> batches (state (snd (analyzeBatch env texts nm d w)))
        = make_batch env nm rs # batches (state w)
    \<and> sentimentResults (snd (analyzeBatch env texts nm d w)) = Some (rs @ results (state w))
    \<and> sentimentBatches (snd (analyzeBatch env texts nm d w))
        = Some (map stringify_batch (make_batch env nm rs # batches (state w)))
    \<and> isLoading (state (snd (analyzeBatch env texts nm d w))) = False
    \<and> error (state (snd (analyzeBatch env texts nm d w))) = None"
proof -
  let ?w1 = "setState (\<lambda>prev. prev\<lparr>isLoading := True, error := None, progress := 0\<rparr>) w"
  obtain out w2 where l: "batch_loop env d (length texts) 0 texts [] ?w1 = (out, w2)"
    by (cases "batch_loop env d (length texts) 0 texts [] ?w1")
  with assms have out: "out = Inr rs" by simp
  have "kept ?w1 w2"
    using batch_loop_kept [of ?w1 env d "length texts" 0 texts "[]"] l by simp
  then have k: "results (state w2) = results (state w)" "batches (state w2) = batches (state w)"
    "error (state w2) = None"
    by (simp_all add: kept_def setState_def)
  show ?thesis
    using k by (simp add: analyzeBatch_def Let_def l out saveToLocalStorage_def)
qed

lemma stringify_blank_batch:
  "stringify_batch (make_batch env nm []) =
     \<lparr>batch_id = new_batch_id env, batch_name = nm, batch_results = [],
      batch_summary = \<lparr>totalTexts = 0, positiveCount = 0, negativeCount = 0,
                        neutralCount = 0, averageConfidence = None\<rparr>,
      createdAt = batch_time env\<rparr>"
  by (simp add: stringify_batch_def make_batch_def js_divide_def)

text \<open>
  C10. If every entry of a non-empty list is blank, \<open>analyzeBatch\<close> succeeds with a batch
  without results whose summary counts are all 0 and whose average confidence is the
  quotient 0/0, \<open>NaN\<close>; the batch is put in front of the batch collection, and the
  stored item holds the new collection with the batch in front, its average confidence
  written as \<^verbatim>\<open>null\<close>.
\<close>

theorem analyzeBatch_all_blank:
  assumes "texts \<noteq> []" "\<forall>t \<in> set texts. trim t = []"
  shows "fst (analyzeBatch env texts nm d w) = Inr (make_batch env nm [])
    \<and> make_batch env nm [] =
        \<lparr>batch_id = new_batch_id env, batch_name = nm, batch_results = [],
         batch_summary = \<lparr>totalTexts = 0, positiveCount = 0, negativeCount = 0,
                           neutralCount = 0, averageConfidence = NaN\<rparr>,
         createdAt = batch_time env\<rparr>
    \<and> batches (state (snd (analyzeBatch env texts nm d w)))
        = make_batch env nm [] # batches (state w)
    \<and> sentimentBatches (snd (analyzeBatch env texts nm d w))
        = Some (\<lparr>batch_id = new_batch_id env, batch_name = nm, batch_results = [],
                  batch_summary = \<lparr>totalTexts = 0, positiveCount = 0, negativeCount = 0,
                                    neutralCount = 0, averageConfidence = None\<rparr>,
                  createdAt = batch_time env\<rparr>
                # map stringify_batch (batches (state w)))
    \<and> results (state (snd (analyzeBatch env texts nm d w))) = results (state w)
    \<and> sentimentResults (snd (analyzeBatch env texts nm d w)) = Some (results (state w))
    \<and> isLoading (state (snd (analyzeBatch env texts nm d w))) = False
    \<and> error (state (snd (analyzeBatch env texts nm d w))) = None"
proof -
  have "fst (batch_loop env d (length texts) 0 texts []
             (setState (\<lambda>prev. prev\<lparr>isLoading := True, error := None, progress := 0\<rparr>) w)) = Inr []"
    using assms(2) by (rule batch_loop_blank)
  from analyzeBatch_loop_success [OF this, of nm]
  have s: "fst (analyzeBatch env texts nm d w) = Inr (make_batch env nm [])"
    "results (state (snd (analyzeBatch env texts nm d w))) = results (state w)"
    "batches (state (snd (analyzeBatch env texts nm d w))) = make_batch env nm [] # batches (state w)"
    "sentimentResults (snd (analyzeBatch env texts nm d w)) = Some (results (state w))"
    "sentimentBatches (snd (analyzeBatch env texts nm d w))
        = Some (map stringify_batch (make_batch env nm [] # batches (state w)))"
    "isLoading (state (snd (analyzeBatch env texts nm d w))) = False"
    "error (state (snd (analyzeBatch env texts nm d w))) = None"
    by simp_all
  have m: "make_batch env nm [] =
        \<lparr>batch_id = new_batch_id env, batch_name = nm, batch_results = [],
         batch_summary = \<lparr>totalTexts = 0, positiveCount = 0, negativeCount = 0,
                           neutralCount = 0, averageConfidence = NaN\<rparr>,
         createdAt = batch_time env\<rparr>"
    by (simp add: make_batch_def js_divide_def)
  have st: "sentimentBatches (snd (analyzeBatch env texts nm d w))
        = Some (\<lparr>batch_id = new_batch_id env, batch_name = nm, batch_results = [],
                  batch_summary = \<lparr>totalTexts = 0, positiveCount = 0, negativeCount = 0,
                                    neutralCount = 0, averageConfidence = None\<rparr>,
                  createdAt = batch_time env\<rparr>
                # map stringify_batch (batches (state w)))"
    by (simp add: s(5) stringify_blank_batch)
  show ?thesis
    using s(1-4,6,7) m st by blast
qed

theorem analyzeBatch_all_blank_witness:
  "fst (analyzeBatch sample_env ['''', ''  '', [CHR 0xA0, CHR 0x09]] ''blank'' True empty_world) =
     Inr \<lparr>batch_id = ''b1'', batch_name = ''blank'', batch_results = [],
          batch_summary = \<lparr>totalTexts = 0, positiveCount = 0, negativeCount = 0,
                            neutralCount = 0, averageConfidence = NaN\<rparr>,
          createdAt = 7\<rparr>
   \<and> sentimentBatches
        (snd (analyzeBatch sample_env ['''', ''  '', [CHR 0xA0, CHR 0x09]] ''blank'' True
           empty_world)) =
     Some [\<lparr>batch_id = ''b1'', batch_name = ''blank'', batch_results = [],
            batch_summary = \<lparr>totalTexts = 0, positiveCount = 0, negativeCount = 0,
                              neutralCount = 0, averageConfidence = None\<rparr>,
            createdAt = 7\<rparr>]"
proof -
  have h: "['''', ''  '', [CHR 0xA0, CHR 0x09]] \<noteq> []"
    "\<forall>t \<in> set ['''', ''  '', [CHR 0xA0, CHR 0x09]]. trim t = []"
    by (simp_all add: trim_good)
  have e: "batches (state empty_world) = []" "new_batch_id sample_env = ''b1''"
    "batch_time sample_env = 7"
    by (simp_all add: empty_world_def sample_env_def)
  from analyzeBatch_all_blank [OF h, of sample_env "''blank''" True empty_world]
  show ?thesis
    by (simp add: e)
qed

subsection \<open>deleteBatch\<close>

lemma deleteBatch_found:
  assumes "find (\<lambda>b. batch_id b = i) (batches (state w)) = Some b"
  shows "batch_id b = i" "b \<in> set (batches (state w))"
    "batches (state (deleteBatch i w)) = filter (\<lambda>c. batch_id c \<noteq> i) (batches (state w))"
    "results (state (deleteBatch i w))
       = filter (\<lambda>r. result_id r \<notin> result_id ` set (batch_results b)) (results (state w))"
    "sentimentResults (deleteBatch i w) = Some (results (state (deleteBatch i w)))"
    "sentimentBatches (deleteBatch i w)
       = Some (map stringify_batch (batches (state (deleteBatch i w))))"
proof -
  show "batch_id b = i" "b \<in> set (batches (state w))"
    using assms by (auto simp: find_Some_iff)
  have m: "(\<lambda>r. \<not> list_ex (\<lambda>br. result_id br = result_id r) (batch_results b))
      = (\<lambda>r. result_id r \<notin> result_id ` set (batch_results b))"
    by (rule ext) (auto simp: list_ex_iff image_iff)
  show "batches (state (deleteBatch i w)) = filter (\<lambda>c. batch_id c \<noteq> i) (batches (state w))"
    by (simp add: deleteBatch_def Let_def saveToLocalStorage_def)
  show "results (state (deleteBatch i w))
        = filter (\<lambda>r. result_id r \<notin> result_id ` set (batch_results b)) (results (state w))"
    by (simp add: deleteBatch_def Let_def saveToLocalStorage_def assms m)
  show "sentimentResults (deleteBatch i w) = Some (results (state (deleteBatch i w)))"
    "sentimentBatches (deleteBatch i w)
       = Some (map stringify_batch (batches (state (deleteBatch i w))))"
    by (simp_all add: deleteBatch_def Let_def saveToLocalStorage_def)
qed

text \<open>
  C5. When \<open>b\<close> is the batch with identifier \<open>i\<close> (the first one in the collection),
  \<open>deleteBatch i\<close> removes the batches with that identifier and keeps the others in
  order; it removes exactly the results whose identifier is that of a member of \<open>b\<close> and
  keeps every other result, whatever its text; both collections are stored, the batches
  as their JSON text holds them.
\<close>

theorem deleteBatch_cascade:
  assumes "find (\<lambda>b. batch_id b = i) (batches (state w)) = Some b"
  shows "batch_id b = i \<and> b \<in> set (batches (state w))
    \<and> batches (state (deleteBatch i w)) = filter (\<lambda>c. batch_id c \<noteq> i) (batches (state w))
    \<and> results (state (deleteBatch i w))
        = filter (\<lambda>r. result_id r \<notin> result_id ` set (batch_results b)) (results (state w))
    \<and> (\<forall>r \<in> set (results (state w)).
          result_id r \<notin> result_id ` set (batch_results b) \<longrightarrow>
          r \<in> set (results (state (deleteBatch i w))))
    \<and> (\<forall>r \<in> set (results (state (deleteBatch i w))).
          r \<in> set (results (state w)) \<and> result_id r \<notin> result_id ` set (batch_results b))
    \<and> (\<forall>c \<in> set (batches (state w)).
          batch_id c \<noteq> i \<longrightarrow> c \<in> set (batches (state (deleteBatch i w))))
    \<and> b \<notin> set (batches (state (deleteBatch i w)))
    \<and> sentimentResults (deleteBatch i w) = Some (results (state (deleteBatch i w)))
    \<and> sentimentBatches (deleteBatch i w)
        = Some (map stringify_batch (batches (state (deleteBatch i w))))"
proof -
  note f = deleteBatch_found [OF assms]
  show ?thesis
    using f(1,2,5,6) by (simp add: f(3,4))
qed

theorem deleteBatch_cascade_witness:
  "results (state (deleteBatch ''b1'' sample_world)) = [standalone_result]
   \<and> result_text standalone_result = result_text member_result
   \<and> batches (state (deleteBatch ''b1'' sample_world)) = []"
proof -
  have h: "find (\<lambda>b. batch_id b = ''b1'') (batches (state sample_world)) = Some sample_batch"
    by (simp add: sample_world_def sample_batch_def make_batch_def sample_env_def)
  have ids: "result_id member_result = ''r''" "result_id standalone_result = ''s''"
    "batch_results sample_batch = [member_result]" "batch_id sample_batch = ''b1''"
    by (simp_all add: member_result_def standalone_result_def make_result_def sample_env_def
        sample_batch_def make_batch_def)
  from deleteBatch_cascade [OF h]
  have "results (state (deleteBatch ''b1'' sample_world))
        = filter (\<lambda>r. result_id r \<notin> result_id ` set (batch_results sample_batch))
            (results (state sample_world))"
    and "batches (state (deleteBatch ''b1'' sample_world))
        = filter (\<lambda>c. batch_id c \<noteq> ''b1'') (batches (state sample_world))"
    by blast+
  then show ?thesis
    by (simp add: ids sample_world_def standalone_result_def)
qed

subsection \<open>The membership invariant\<close>

lemma members_present_iff:
  "members_present w =
     (\<forall>b \<in> set (batches (state w)). \<forall>r \<in> set (batch_results b).
        result_id r \<in> result_id ` set (results (state w)))"
  by (simp add: members_present_def list_all_iff)

lemma set_member_ids:
  "set (member_ids w) = (\<Union>b \<in> set (batches (state w)). result_id ` set (batch_results b))"
  by (simp add: member_ids_def)

lemma set_generated_ids:
  "set (generated_ids env texts) =
     {new_result_id env (0 + j) | j. j < length texts \<and> trim (texts ! j) \<noteq> []}"
  by (auto simp: generated_ids_def)

lemma analyzeSingleText_invariant:
  assumes "members_present w" "batches_apart w"
  shows "members_present (snd (analyzeSingleText env t d w))
       \<and> batches_apart (snd (analyzeSingleText env t d w))"
  using assms
  by (auto simp: analyzeSingleText_def Let_def setState_def saveToLocalStorage_def
      members_present_iff batches_apart_def split: sum.splits)

lemma clearResults_invariant:
  "members_present (clearResults w) \<and> batches_apart (clearResults w)"
  by (simp add: clearResults_def setState_def members_present_iff batches_apart_def)

lemma deleteBatch_invariant:
  assumes mp: "members_present w" and ap: "batches_apart w"
  shows "members_present (deleteBatch i w) \<and> batches_apart (deleteBatch i w)"
proof
  have bs: "batches (state (deleteBatch i w)) = filter (\<lambda>c. batch_id c \<noteq> i) (batches (state w))"
    by (simp add: deleteBatch_def Let_def saveToLocalStorage_def)
  show "batches_apart (deleteBatch i w)"
    using ap unfolding batches_apart_def bs by auto
  show "members_present (deleteBatch i w)"
  proof (cases "find (\<lambda>b. batch_id b = i) (batches (state w))")
    case None
    then have "results (state (deleteBatch i w)) = results (state w)"
      by (simp add: deleteBatch_def Let_def saveToLocalStorage_def)
    then show ?thesis
      using mp unfolding members_present_iff bs by auto
  next
    case (Some b)
    note b = deleteBatch_found(1,2) [OF Some]
    note rs = deleteBatch_found(4) [OF Some]
    show ?thesis
      unfolding members_present_iff bs
    proof (intro ballI)
      fix c r
      assume c: "c \<in> set (filter (\<lambda>c. batch_id c \<noteq> i) (batches (state w)))"
        and r: "r \<in> set (batch_results c)"
      then have cw: "c \<in> set (batches (state w))" "batch_id c \<noteq> batch_id b"
        using b by auto
      from mp cw r obtain r0 where r0: "r0 \<in> set (results (state w))" "result_id r0 = result_id r"
        unfolding members_present_iff by (metis imageE)
      from ap cw b
      have "set (map result_id (batch_results c)) \<inter> set (map result_id (batch_results b)) = {}"
        unfolding batches_apart_def by blast
      with r have "result_id r \<notin> result_id ` set (batch_results b)"
        by auto
      with r0 have "r0 \<in> set (results (state (deleteBatch i w)))"
        unfolding rs by simp
      with r0 show "result_id r \<in> result_id ` set (results (state (deleteBatch i w)))"
        by (metis imageI)
    qed
  qed
qed

lemma analyzeBatch_invariant:
  assumes mp: "members_present w" and ap: "batches_apart w"
    and fresh: "set (generated_ids env texts) \<inter> set (member_ids w) = {}"
  shows "members_present (snd (analyzeBatch env texts nm d w))
       \<and> batches_apart (snd (analyzeBatch env texts nm d w))"
proof (cases "fst (batch_loop env d (length texts) 0 texts []
             (setState (\<lambda>prev. prev\<lparr>isLoading := True, error := None, progress := 0\<rparr>) w))")
  case (Inl e)
  from analyzeBatch_loop_failure [OF Inl, of nm]
  have "results (state (snd (analyzeBatch env texts nm d w))) = results (state w)"
    and "batches (state (snd (analyzeBatch env texts nm d w))) = batches (state w)"
    by blast+
  with mp ap show ?thesis
    by (simp add: members_present_iff batches_apart_def)
next
  case (Inr rs)
  from analyzeBatch_loop_success [OF Inr, of nm]
  have rs': "results (state (snd (analyzeBatch env texts nm d w))) = rs @ results (state w)"
    and bs: "batches (state (snd (analyzeBatch env texts nm d w)))
        = make_batch env nm rs # batches (state w)"
    by blast+
  from batch_loop_ids [OF Inr]
  have "result_id ` set rs \<subseteq> set (generated_ids env texts)"
    by (simp add: set_generated_ids)
  with fresh have new: "result_id ` set rs \<inter> set (member_ids w) = {}"
    by blast
  have new': "result_id x \<noteq> result_id y"
    if "b \<in> set (batches (state w))" "x \<in> set rs" "y \<in> set (batch_results b)" for b x y
  proof
    assume "result_id x = result_id y"
    have "result_id x \<in> result_id ` set rs"
      using that(2) by (rule imageI)
    moreover have "result_id y \<in> set (member_ids w)"
      unfolding set_member_ids using that(1,3) by blast
    ultimately show False
      using new \<open>result_id x = result_id y\<close> by auto

  qed
  have ap': "result_id x \<noteq> result_id y"
    if "b \<in> set (batches (state w))" "c \<in> set (batches (state w))"
      "batch_id b \<noteq> batch_id c" "x \<in> set (batch_results b)" "y \<in> set (batch_results c)"
    for b c x y
  proof
    assume "result_id x = result_id y"
    with that have "result_id x \<in> set (map result_id (batch_results b))
        \<inter> set (map result_id (batch_results c))"
      by (simp add: image_iff) metis
    moreover from ap that(1-3)
    have "set (map result_id (batch_results b)) \<inter> set (map result_id (batch_results c)) = {}"
      unfolding batches_apart_def by blast
    ultimately show False by blast
  qed
  have br: "batch_results (make_batch env nm rs) = rs"
    by (simp add: make_batch_def)
  have "members_present (snd (analyzeBatch env texts nm d w))"
    unfolding members_present_iff rs' bs
  proof (intro ballI)
    fix b r
    assume b: "b \<in> set (make_batch env nm rs # batches (state w))"
      and r: "r \<in> set (batch_results b)"
    show "result_id r \<in> result_id ` set (rs @ results (state w))"
    proof (cases "b = make_batch env nm rs")
      case True
      with r show ?thesis by (simp add: br)
    next
      case False
      with b have "b \<in> set (batches (state w))" by simp
      with mp r have "result_id r \<in> result_id ` set (results (state w))"
        unfolding members_present_iff by blast
      then show ?thesis by auto
    qed
  qed
  moreover have "batches_apart (snd (analyzeBatch env texts nm d w))"
    unfolding batches_apart_def bs
  proof (intro ballI impI)
    fix b c
    assume b: "b \<in> set (make_batch env nm rs # batches (state w))"
      and c: "c \<in> set (make_batch env nm rs # batches (state w))"
      and ne: "batch_id b \<noteq> batch_id c"
    show "set (map result_id (batch_results b)) \<inter> set (map result_id (batch_results c)) = {}"
    proof (rule ccontr)
      assume "set (map result_id (batch_results b)) \<inter> set (map result_id (batch_results c)) \<noteq> {}"
      then obtain x y where xy: "x \<in> set (batch_results b)" "y \<in> set (batch_results c)"
        "result_id x = result_id y"
        by auto
      from b c ne consider
        "b = make_batch env nm rs" "c \<in> set (batches (state w))"
        | "c = make_batch env nm rs" "b \<in> set (batches (state w))"
        | "b \<in> set (batches (state w))" "c \<in> set (batches (state w))"
        by auto
      then show False
      proof cases
        case 1
        with xy new' [of c x y] show False by (simp add: br)
      next
        case 2
        with xy new' [of b y x] show False by (simp add: br)
      next
        case 3
        with xy ne ap' [of b c x y] show False by simp
      qed
    qed
  qed
  ultimately show ?thesis ..
qed

lemma run_Cons: "run (p # ops) w = run ops (apply_operation p w)"
  by (simp add: run_def)

lemma run_invariant:
  "members_present w \<Longrightarrow> batches_apart w \<Longrightarrow> admissible ops w \<Longrightarrow>
     members_present (run ops w) \<and> batches_apart (run ops w)"
proof (induction ops arbitrary: w)
  case Nil
  then show ?case by (simp add: run_def)
next
  case (Cons p ops)
  show ?case
  proof (cases p)
    case (AnalyzeSingleText env t d)
    with Cons.prems analyzeSingleText_invariant [of w env t d]
    show ?thesis
      by (simp add: run_Cons Cons.IH)
  next
    case (AnalyzeBatch env texts nm d)
    with Cons.prems analyzeBatch_invariant [of w env texts nm d]
    show ?thesis
      by (simp add: run_Cons Cons.IH)
  next
    case (DeleteResult i)
    with Cons.prems show ?thesis by simp
  next
    case (DeleteBatch i)
    with Cons.prems deleteBatch_invariant [of w i]
    show ?thesis
      by (simp add: run_Cons Cons.IH)
  next
    case ClearResults
    with Cons.prems clearResults_invariant [of w]
    show ?thesis
      by (simp add: run_Cons Cons.IH)
  qed
qed

text \<open>
  C4, amended. From a state in which every batch member is in the result collection and
  batches with different identifiers share no result identifier, every sequence of
  \<open>analyzeSingleText\<close>, \<open>analyzeBatch\<close>, \<open>deleteBatch\<close> and \<open>clearResults\<close> in which
  each batch call generates result identifiers that no stored batch lists leads to such a
  state again; so every state reached from the empty state by such a sequence has all
  its batch members in the result collection. \<open>deleteResult\<close> is not among these
  operations.
\<close>

theorem members_present_preserved:
  "(members_present w \<and> batches_apart w \<and> admissible ops w \<longrightarrow>
      members_present (run ops w) \<and> batches_apart (run ops w))
   \<and> (admissible ops empty_world \<longrightarrow> members_present (run ops empty_world))"
proof -
  have e: "members_present empty_world" "batches_apart empty_world"
    by (simp_all add: members_present_iff batches_apart_def empty_world_def)
  show ?thesis
    using run_invariant [of w ops] run_invariant [OF e, of ops] by blast
qed

lemma sample_loop:
  "fst (batch_loop sample_env True (length [''good'']) 0 [''good''] [] w) = Inr [member_result]"
  by (simp add: trim_good sample_env_def member_result_def)

lemma sample_batch_run:
  "results (state (run [AnalyzeBatch sample_env [''good''] ''first'' True] empty_world))
     = [member_result]"
  "batches (state (run [AnalyzeBatch sample_env [''good''] ''first'' True] empty_world))
     = [sample_batch]"
  using analyzeBatch_loop_success [OF sample_loop, where w = empty_world and nm = "''first''"]
  by (simp_all add: run_def sample_batch_def empty_world_def)

lemma sample_ids:
  "result_id member_result = ''r''" "batch_results sample_batch = [member_result]"
  by (simp_all add: member_result_def make_result_def sample_env_def sample_batch_def
      make_batch_def)

text \<open>
  C4 as stated fails: after a batch of one text, every member is in the result
  collection; \<open>deleteResult\<close> of the member's identifier removes the result and leaves
  the batch, which then lists a result that is not in the collection.
\<close>

theorem deleteResult_breaks_membership:
  "members_present (run [AnalyzeBatch sample_env [''good''] ''first'' True] empty_world)
   \<and> \<not> members_present
         (run [AnalyzeBatch sample_env [''good''] ''first'' True, DeleteResult ''r'']
            empty_world)"
proof -
  have a: "members_present (run [AnalyzeBatch sample_env [''good''] ''first'' True] empty_world)"
    by (simp add: members_present_iff sample_batch_run sample_ids)
  have r: "run [AnalyzeBatch sample_env [''good''] ''first'' True, DeleteResult ''r''] empty_world
      = deleteResult ''r'' (run [AnalyzeBatch sample_env [''good''] ''first'' True] empty_world)"
    by (simp add: run_def)
  have b: "\<not> members_present
         (run [AnalyzeBatch sample_env [''good''] ''first'' True, DeleteResult ''r'']
            empty_world)"
    unfolding r
    by (simp add: members_present_iff deleteResult_def Let_def saveToLocalStorage_def
        sample_batch_run sample_ids)
  show ?thesis using a b by simp
qed

theorem members_present_preserved_witness:
  "members_present
     (run [AnalyzeBatch sample_env [''good''] ''first'' True,
           AnalyzeSingleText sample_env ''good'' True,
           DeleteBatch ''b1''] empty_world)"
proof -
  have "member_ids empty_world = []"
    by (simp add: member_ids_def empty_world_def)
  then have "admissible [AnalyzeBatch sample_env [''good''] ''first'' True,
           AnalyzeSingleText sample_env ''good'' True,
           DeleteBatch ''b1''] empty_world"
    by simp
  with members_present_preserved [of empty_world "[AnalyzeBatch sample_env [''good''] ''first'' True,
           AnalyzeSingleText sample_env ''good'' True,
           DeleteBatch ''b1'']"]
  show ?thesis by blast
qed

end
